theory Spec2Isabelle
  imports Complex_Main
begin

section \<open>Tensors\<close>

text \<open>
  The decoder of \<^verbatim>\<open>decoder/my_yolo.py\<close> is a TensorFlow graph.  A tensor is modelled by
  its shape and its elements in row-major order; \<^verbatim>\<open>float32\<close> values are idealised as
  real numbers, integer tensors hold \<open>int\<close>, boolean tensors hold \<open>bool\<close>.
  Every operation that TensorFlow rejects (a reshape to another element count, a matrix
  product of incompatible shapes, shapes that do not broadcast, a label outside the
  classes) is an \<open>Inl\<close> value.
\<close>

datatype error = ShapeError | VariableError | LabelError | AssertionError | NoneError | IndexError

datatype 'a tensor = Tensor (shape: "nat list") (elems: "'a list")

definition wf :: "'a tensor \<Rightarrow> bool" where
  "wf t \<longleftrightarrow> length (elems t) = prod_list (shape t)"

definition bnd :: "error + 'a \<Rightarrow> ('a \<Rightarrow> error + 'b) \<Rightarrow> error + 'b" where
  "bnd m f = (case m of Inl e \<Rightarrow> Inl e | Inr x \<Rightarrow> f x)"

text \<open>\<^verbatim>\<open>tf.reshape(t, dims)\<close> with every dimension given.\<close>

definition reshape :: "'a tensor \<Rightarrow> nat list \<Rightarrow> error + 'a tensor" where
  "reshape t dims =
     (if prod_list dims = prod_list (shape t) then Inr (Tensor dims (elems t))
      else Inl ShapeError)"

text \<open>\<^verbatim>\<open>tf.reshape(t, [-1])\<close> and \<^verbatim>\<open>tf.reshape(t, [-1, c])\<close>: the free dimension is inferred.\<close>

definition reshape_flat :: "'a tensor \<Rightarrow> 'a tensor" where
  "reshape_flat t = Tensor [prod_list (shape t)] (elems t)"

definition reshape_rows :: "'a tensor \<Rightarrow> nat \<Rightarrow> error + 'a tensor" where
  "reshape_rows t c =
     (if c \<noteq> 0 \<and> prod_list (shape t) mod c = 0
      then Inr (Tensor [prod_list (shape t) div c, c] (elems t))
      else Inl ShapeError)"

text \<open>Element-wise operations with a scalar operand, and casts.\<close>

definition tmap :: "('a \<Rightarrow> 'b) \<Rightarrow> 'a tensor \<Rightarrow> 'b tensor" where
  "tmap f t = Tensor (shape t) (map f (elems t))"

definition reduce_sum :: "real tensor \<Rightarrow> real" where
  "reduce_sum t = sum_list (elems t)"

definition reduce_mean :: "real tensor \<Rightarrow> real" where
  "reduce_mean t = sum_list (elems t) / real (prod_list (shape t))"

definition of_bool_real :: "bool \<Rightarrow> real" where
  "of_bool_real b = (if b then 1 else 0)"

definition of_bool_int :: "bool \<Rightarrow> int" where
  "of_bool_int b = (if b then 1 else 0)"

text \<open>Broadcasting binary operations (\<^verbatim>\<open>+\<close>, \<^verbatim>\<open>-\<close>, \<^verbatim>\<open>*\<close>, \<^verbatim>\<open>/\<close>, \<^verbatim>\<open>tf.logical_and\<close>,
  \<^verbatim>\<open>tf.equal\<close>): shapes are aligned at the last axis, an axis of extent 1 is repeated.\<close>

fun bshape :: "nat list \<Rightarrow> nat list \<Rightarrow> nat list option" where
  "bshape [] ys = Some ys"
| "bshape (x # xs) [] = Some (x # xs)"
| "bshape (x # xs) (y # ys) =
     (if x = y \<or> y = 1 then map_option ((#) x) (bshape xs ys)
      else if x = 1 then map_option ((#) y) (bshape xs ys)
      else None)"

definition broadcast_shape :: "nat list \<Rightarrow> nat list \<Rightarrow> nat list option" where
  "broadcast_shape a b = map_option rev (bshape (rev a) (rev b))"

fun unravel :: "nat list \<Rightarrow> nat \<Rightarrow> nat list" where
  "unravel [] j = []"
| "unravel (d # ds) j = (j div prod_list ds) # unravel ds (j mod prod_list ds)"

fun ravel :: "nat list \<Rightarrow> nat list \<Rightarrow> nat" where
  "ravel (d # ds) (i # is) = i * prod_list ds + ravel ds is"
| "ravel _ _ = 0"

text \<open>\<open>entry t [i, j, k]\<close> is the element \<^verbatim>\<open>t[i, j, k]\<close>: \<open>ravel\<close> turns the indices into the
  position in row-major order.\<close>

definition entry :: "'a tensor \<Rightarrow> nat list \<Rightarrow> 'a" where
  "entry t idx = elems t ! ravel (shape t) idx"

definition bidx :: "nat list \<Rightarrow> nat list \<Rightarrow> nat \<Rightarrow> nat" where
  "bidx s out j =
     ravel s (map2 (\<lambda>d i. if d = 1 then 0 else i) s
                (drop (length out - length s) (unravel out j)))"

definition binop :: "('a \<Rightarrow> 'b \<Rightarrow> 'c) \<Rightarrow> 'a tensor \<Rightarrow> 'b tensor \<Rightarrow> error + 'c tensor" where
  "binop f a b =
     (case broadcast_shape (shape a) (shape b) of
        None \<Rightarrow> Inl ShapeError
      | Some s \<Rightarrow>
          Inr (Tensor s (map (\<lambda>j. f (elems a ! bidx (shape a) s j)
                                    (elems b ! bidx (shape b) s j))
                             [0..<prod_list s])))"

text \<open>\<^verbatim>\<open>tf.matmul\<close> of two matrices.\<close>

definition matmul :: "real tensor \<Rightarrow> real tensor \<Rightarrow> error + real tensor" where
  "matmul a b =
     (if length (shape a) = 2 \<and> length (shape b) = 2 \<and> shape a ! 1 = shape b ! 0
      then (let m = shape a ! 0; k = shape a ! 1; n = shape b ! 1 in
            Inr (Tensor [m, n]
                   (concat (map (\<lambda>i. map (\<lambda>j. \<Sum>l\<leftarrow>[0..<k].
                                          elems a ! (i * k + l) * elems b ! (l * n + j))
                                      [0..<n])
                                [0..<m]))))
      else Inl ShapeError)"

text \<open>\<open>rows_of n c xs\<close>: the \<open>n\<close> consecutive pieces of length \<open>c\<close> of \<open>xs\<close>.\<close>

definition rows_of :: "nat \<Rightarrow> nat \<Rightarrow> 'a list \<Rightarrow> 'a list list" where
  "rows_of n c xs = map (\<lambda>i. take c (drop (i * c) xs)) [0..<n]"

text \<open>\<^verbatim>\<open>tf.nn.softmax\<close>: a matrix of logits, normalised along each row.\<close>

definition softmax_row :: "real list \<Rightarrow> real list" where
  "softmax_row xs = map (\<lambda>x. exp x / (\<Sum>y\<leftarrow>xs. exp y)) xs"

definition softmax :: "real tensor \<Rightarrow> error + real tensor" where
  "softmax t =
     (if length (shape t) = 2
      then Inr (Tensor (shape t)
                  (concat (map softmax_row (rows_of (shape t ! 0) (shape t ! 1) (elems t)))))
      else Inl ShapeError)"

text \<open>\<^verbatim>\<open>tf.nn.sparse_softmax_cross_entropy_with_logits(logits, labels)\<close>: logits of shape
  \<open>[n, c]\<close>, labels of shape \<open>[n]\<close>; the entry of a row is minus the logarithm of the
  softmax probability of the row's label.\<close>

definition xent_row :: "real list \<Rightarrow> int \<Rightarrow> real" where
  "xent_row xs l = ln (\<Sum>y\<leftarrow>xs. exp y) - xs ! nat l"

definition sparse_softmax_cross_entropy_with_logits ::
  "real tensor \<Rightarrow> int tensor \<Rightarrow> error + real tensor" where
  "sparse_softmax_cross_entropy_with_logits logits labels =
     (if length (shape logits) = 2 \<and> length (shape labels) = 1
         \<and> shape logits ! 0 = shape labels ! 0
      then (if list_all (\<lambda>l. 0 \<le> l \<and> l < int (shape logits ! 1)) (elems labels)
            then Inr (Tensor (shape labels)
                        (map (\<lambda>i. xent_row (take (shape logits ! 1)
                                               (drop (i * (shape logits ! 1)) (elems logits)))
                                            (elems labels ! i))
                             [0..<shape labels ! 0]))
            else Inl LabelError)
      else Inl ShapeError)"

text \<open>Slices.  \<open>slice_last t a b\<close> is \<^verbatim>\<open>t[..., a:b]\<close> (the bounds are clipped to the axis, as
  Python does); \<open>select_axis1 t k\<close> is \<^verbatim>\<open>t[:, k, :]\<close> of a rank-3 tensor and
  \<open>select_axis2 t k\<close> is \<^verbatim>\<open>t[:, :, k, :]\<close> of a rank-4 tensor, an index outside the axis
  being an error.\<close>

definition slice_last :: "nat \<Rightarrow> 'a tensor \<Rightarrow> nat \<Rightarrow> nat \<Rightarrow> error + 'a tensor" where
  "slice_last rank t a b =
     (if length (shape t) = rank \<and> rank \<noteq> 0
      then (let c = last (shape t); n = prod_list (butlast (shape t)) in
            Inr (Tensor (butlast (shape t) @ [min b c - a])
                   (concat (map (\<lambda>r. take (min b c - a) (drop a r)) (rows_of n c (elems t))))))
      else Inl ShapeError)"

definition select_axis1 :: "'a tensor \<Rightarrow> nat \<Rightarrow> error + 'a tensor" where
  "select_axis1 t k =
     (if length (shape t) = 3 \<and> k < shape t ! 1
      then (let d0 = shape t ! 0; d1 = shape t ! 1; d2 = shape t ! 2 in
            Inr (Tensor [d0, d2]
                   (concat (map (\<lambda>i. take d2 (drop ((i * d1 + k) * d2) (elems t))) [0..<d0]))))
      else Inl ShapeError)"

definition select_axis2 :: "'a tensor \<Rightarrow> nat \<Rightarrow> error + 'a tensor" where
  "select_axis2 t k =
     (if length (shape t) = 4 \<and> k < shape t ! 2
      then (let d0 = shape t ! 0; d1 = shape t ! 1; d2 = shape t ! 2; d3 = shape t ! 3 in
            Inr (Tensor [d0, d1, d3]
                   (concat (map (\<lambda>i. take d3 (drop ((i * d2 + k) * d3) (elems t)))
                                [0..<d0 * d1]))))
      else Inl ShapeError)"

text \<open>\<^verbatim>\<open>tf.concat(0, ts)\<close> and \<^verbatim>\<open>tf.concat(1, ts)\<close>: the tensors agree on every other axis;
  an empty list is rejected.\<close>

definition concat0 :: "'a tensor list \<Rightarrow> error + 'a tensor" where
  "concat0 ts =
     (if ts \<noteq> [] \<and> list_all (\<lambda>t. shape t \<noteq> [] \<and> tl (shape t) = tl (shape (hd ts))) ts
      then Inr (Tensor (sum_list (map (\<lambda>t. hd (shape t)) ts) # tl (shape (hd ts)))
                  (concat (map elems ts)))
      else Inl ShapeError)"

definition concat1 :: "'a tensor list \<Rightarrow> error + 'a tensor" where
  "concat1 ts =
     (if ts \<noteq> [] \<and> list_all (\<lambda>t. 2 \<le> length (shape t) \<and> hd (shape t) = hd (shape (hd ts))
                                  \<and> drop 2 (shape t) = drop 2 (shape (hd ts))) ts
      then (let d0 = hd (shape (hd ts)); inner = prod_list (drop 2 (shape (hd ts))) in
            Inr (Tensor (d0 # sum_list (map (\<lambda>t. shape t ! 1) ts) # drop 2 (shape (hd ts)))
                   (concat (map (\<lambda>i. concat (map (\<lambda>t. take (shape t ! 1 * inner)
                                                       (drop (i * (shape t ! 1 * inner)) (elems t)))
                                                 ts))
                                [0..<d0]))))
      else Inl ShapeError)"

text \<open>\<^verbatim>\<open>tf.transpose(t, perm)\<close>: axis \<open>q\<close> of the result is axis \<open>perm ! q\<close> of \<open>t\<close>.\<close>

fun position :: "'a \<Rightarrow> 'a list \<Rightarrow> nat" where
  "position a [] = 0"
| "position a (p # ps) = (if p = a then 0 else Suc (position a ps))"

definition transpose_t :: "'a tensor \<Rightarrow> nat list \<Rightarrow> error + 'a tensor" where
  "transpose_t t perm =
     (if length perm = length (shape t) \<and> distinct perm \<and> list_all (\<lambda>p. p < length perm) perm
      then (let out = map (\<lambda>p. shape t ! p) perm in
            Inr (Tensor out
                   (map (\<lambda>j. elems t ! ravel (shape t)
                                 (map (\<lambda>ax. unravel out j ! position ax perm)
                                      [0..<length perm]))
                        [0..<prod_list out])))
      else Inl ShapeError)"

text \<open>\<^verbatim>\<open>tf.nn.dropout(x, keep_prob)\<close> keeps an element with probability \<open>keep_prob\<close>, scaled
  by \<open>1 / keep_prob\<close>, and zeroes it otherwise.  The random draws are an input of the
  model: \<open>keep i\<close> says whether element \<open>i\<close> is kept.\<close>

definition dropout :: "real tensor \<Rightarrow> real \<Rightarrow> (nat \<Rightarrow> bool) \<Rightarrow> real tensor" where
  "dropout x keep_prob keep =
     Tensor (shape x) (map (\<lambda>i. if keep i then elems x ! i / keep_prob else 0)
                           [0..<length (elems x)])"

definition relu :: "real tensor \<Rightarrow> real tensor" where
  "relu t = tmap (\<lambda>x. max x 0) t"

section \<open>Hyperparameters, variables, phases\<close>

record hyp =
  grid_width :: nat
  grid_height :: nat
  batch_size :: nat
  rnn_len :: nat
  num_classes :: nat
  cnn_channels :: nat
  lstm_size :: nat
  early_feat_channels :: nat
  rezoom_w_coords :: "real list"
  rezoom_h_coords :: "real list"
  use_rezoom :: bool
  reregress :: bool
  use_lstm :: bool
  rezoom_change_loss :: string
  rezoom_conf_scale :: "real option"
  head_weights :: "real list"
  hungarian_iou :: real

datatype phase = Train | Val

text \<open>The variables of scope \<^verbatim>\<open>decoder\<close>: \<^verbatim>\<open>Overfeat/ip\<close>, \<^verbatim>\<open>box_ip\<close>, \<^verbatim>\<open>conf_ip\<close>,
  \<^verbatim>\<open>delta_ip1<k>\<close>, \<^verbatim>\<open>delta_ip2<k>\<close> and \<^verbatim>\<open>delta_ip_boxes<k>\<close>.  Their values when the graph
  runs are an input of the model; \<^verbatim>\<open>tf.get_variable\<close> fails on a variable that does not
  exist or has another shape.\<close>

datatype var = Ip | Box_ip | Conf_ip | Delta_ip1 nat | Delta_ip2 nat | Delta_ip_boxes nat

type_synonym variables = "var \<Rightarrow> real tensor option"

definition get_variable :: "variables \<Rightarrow> var \<Rightarrow> nat list \<Rightarrow> error + real tensor" where
  "get_variable vs name shp =
     (case vs name of
        None \<Rightarrow> Inl VariableError
      | Some t \<Rightarrow> if shape t = shp then Inr t else Inl VariableError)"

text \<open>The places where dropout draws random numbers.\<close>

datatype site = Drop_raw | Drop_rezoom | Drop_ip1 nat

type_synonym draws = "site \<Rightarrow> nat \<Rightarrow> bool"

section \<open>The utility library\<close>

text \<open>
  Modelled from the spec: \<^verbatim>\<open>train_utils.bilinear_select\<close>, \<^verbatim>\<open>train_utils.interp\<close>,
  \<^verbatim>\<open>train_utils.to_x1y1x2y2\<close>, \<^verbatim>\<open>train_utils.iou\<close> and the matching operation
  \<^verbatim>\<open>tf.user_ops.hungarian\<close> are called by the decoder and are not among its sources.
  The spec gives their interfaces: \<^verbatim>\<open>bilinear_select\<close> yields one interpolation index
  (batch, row, column) for every predicted box; \<^verbatim>\<open>interp\<close> gathers one row of
  \<open>channel_count\<close> features for every index; the box utilities work box by box on
  tensors of shape \<open>[n, 4]\<close>.  What they compute for one box is left open: the
  arithmetic of one index, of one sample, of one corner conversion and of one IoU, and
  the whole matcher, are the fields of \<open>train_utils\<close>.
\<close>

record train_utils =
  select_point :: "hyp \<Rightarrow> nat \<Rightarrow> real list \<Rightarrow> real \<Rightarrow> real \<Rightarrow> real \<times> real \<times> real"
  sample :: "real tensor \<Rightarrow> real list \<Rightarrow> nat \<Rightarrow> real"
  corners :: "real list \<Rightarrow> real \<times> real \<times> real \<times> real"
  iou_box :: "real list \<Rightarrow> real list \<Rightarrow> real"
  hungarian :: "real tensor \<Rightarrow> real tensor \<Rightarrow> int tensor \<Rightarrow> real
                  \<Rightarrow> error + (int tensor \<times> int tensor \<times> real tensor \<times> real tensor)"

text \<open>Modelled from the spec: \<^verbatim>\<open>train_utils.bilinear_select\<close> (source missing), one index
  \<open>(batch, row, column)\<close> for every predicted box, in the order of the boxes.\<close>

definition bilinear_select ::
  "train_utils \<Rightarrow> hyp \<Rightarrow> real tensor \<Rightarrow> real tensor \<Rightarrow> nat \<Rightarrow> real \<Rightarrow> real
     \<Rightarrow> error + real tensor" where
  "bilinear_select u hyp pred_boxes early_feat feat_channels w_offset h_offset =
     bnd (reshape_rows pred_boxes 4) (\<lambda>boxes.
       Inr (Tensor [shape boxes ! 0, 3]
              (concat (map (\<lambda>b. case select_point u hyp b (take 4 (drop (b * 4) (elems boxes)))
                                        w_offset h_offset of
                                   (n, y, x) \<Rightarrow> [n, y, x])
                           [0..<shape boxes ! 0]))))"

text \<open>Modelled from the spec: \<^verbatim>\<open>train_utils.interp\<close> (source missing), one row of
  \<open>channel_dim\<close> samples for every index, in the order of the indices.\<close>

definition interp :: "train_utils \<Rightarrow> real tensor \<Rightarrow> real tensor \<Rightarrow> nat \<Rightarrow> error + real tensor" where
  "interp u w i channel_dim =
     (if length (shape i) = 2 \<and> shape i ! 1 = 3
      then Inr (Tensor [shape i ! 0, channel_dim]
                  (concat (map (\<lambda>r. map (sample u w r) [0..<channel_dim])
                               (rows_of (shape i ! 0) 3 (elems i)))))
      else Inl ShapeError)"

text \<open>\<open>box_at t q\<close> is box number \<open>q\<close> of a tensor of boxes, \<open>corner_box\<close> the corner form
  of one box as a row.\<close>

definition box_at :: "real tensor \<Rightarrow> nat \<Rightarrow> real list" where
  "box_at t q = take 4 (drop (q * 4) (elems t))"

definition corner_box :: "train_utils \<Rightarrow> real list \<Rightarrow> real list" where
  "corner_box u b = (case corners u b of (x1, y1, x2, y2) \<Rightarrow> [x1, y1, x2, y2])"

text \<open>Modelled from the spec: \<^verbatim>\<open>train_utils.to_x1y1x2y2\<close> (source missing), the conversion
  from centre form to corner form, box by box.\<close>

definition to_x1y1x2y2 :: "train_utils \<Rightarrow> real tensor \<Rightarrow> error + real tensor" where
  "to_x1y1x2y2 u box =
     (if length (shape box) = 2 \<and> shape box ! 1 = 4
      then Inr (Tensor (shape box)
                  (concat (map (corner_box u) (rows_of (shape box ! 0) 4 (elems box)))))
      else Inl ShapeError)"

text \<open>Modelled from the spec: \<^verbatim>\<open>train_utils.iou\<close> (source missing), the IoU of the boxes
  of two tensors of the same shape, box by box.\<close>

definition iou :: "train_utils \<Rightarrow> real tensor \<Rightarrow> real tensor \<Rightarrow> error + real tensor" where
  "iou u box1 box2 =
     (if length (shape box1) = 2 \<and> shape box1 ! 1 = 4 \<and> shape box2 = shape box1
      then Inr (Tensor [shape box1 ! 0]
                  (map (\<lambda>i. iou_box u (box_at box1 i) (box_at box2 i))
                       [0..<shape box1 ! 0]))
      else Inl ShapeError)"

section \<open>Rezoom\<close>

text \<open>\<^verbatim>\<open>_rezoom\<close>: one \<^verbatim>\<open>bilinear_select\<close> for every pair of offsets, the width offsets in
  the outer loop; the samples are then regrouped by cell and slot.\<close>

fun select_all :: "(real \<times> real \<Rightarrow> error + real tensor) \<Rightarrow> (real \<times> real) list
                     \<Rightarrow> error + real tensor list" where
  "select_all f [] = Inr []"
| "select_all f (p # ps) = bnd (f p) (\<lambda>t. bnd (select_all f ps) (\<lambda>ts. Inr (t # ts)))"

definition rezoom ::
  "train_utils \<Rightarrow> hyp \<Rightarrow> real tensor \<Rightarrow> real tensor \<Rightarrow> nat \<Rightarrow> real list \<Rightarrow> real list
     \<Rightarrow> error + real tensor" where
  "rezoom u hyp pred_boxes early_feat feat_channels w_offsets h_offsets =
     (let grid_size = grid_width hyp * grid_height hyp;
          outer_size = grid_size * batch_size hyp in
      bnd (select_all (\<lambda>(w_offset, h_offset).
                          bilinear_select u hyp pred_boxes early_feat feat_channels
                            w_offset h_offset)
                      (List.product w_offsets h_offsets)) (\<lambda>indices.
      bnd (concat0 indices) (\<lambda>interp_indices.
      bnd (interp u early_feat interp_indices feat_channels) (\<lambda>rezoom_features.
      bnd (reshape rezoom_features
             [length w_offsets * length h_offsets, outer_size, rnn_len hyp,
              feat_channels]) (\<lambda>rezoom_features_r.
      bnd (transpose_t rezoom_features_r [1, 2, 0, 3]) (\<lambda>rezoom_features_t.
      reshape rezoom_features_t
        [outer_size, rnn_len hyp,
         length w_offsets * length h_offsets * feat_channels]))))))"

text \<open>The body of the loop of \<^verbatim>\<open>apply_rezoom\<close> for slot \<open>k\<close>: the delta logits of the
  slot and, under \<^verbatim>\<open>reregress\<close>, its box deltas.\<close>

definition delta_slot ::
  "hyp \<Rightarrow> variables \<Rightarrow> draws \<Rightarrow> phase \<Rightarrow> real tensor \<Rightarrow> real tensor \<Rightarrow> nat
     \<Rightarrow> error + (real tensor \<times> real tensor option)" where
  "delta_slot hyp vs rnd ph raw_output rezoom_features k =
     (let feat_channels = early_feat_channels hyp;
          grid_size = grid_width hyp * grid_height hyp;
          outer_size = grid_size * batch_size hyp;
          num_offsets = length (rezoom_w_coords hyp) * length (rezoom_h_coords hyp);
          dim = 128 in
      bnd (select_axis1 rezoom_features k) (\<lambda>slot_features.
      bnd (concat1 [raw_output, tmap (\<lambda>x. x / 1000) slot_features]) (\<lambda>delta_features.
      bnd (get_variable vs (Delta_ip1 k)
             [lstm_size hyp + feat_channels * num_offsets, dim]) (\<lambda>delta_weights1.
      bnd (matmul delta_features delta_weights1) (\<lambda>prod1.
      let ip1 = (if ph = Train then dropout (relu prod1) 0.5 (rnd (Drop_ip1 k)) else relu prod1) in
      bnd (get_variable vs (Delta_ip2 k) [dim, num_classes hyp]) (\<lambda>delta_confs_weights.
      bnd (if reregress hyp
           then bnd (get_variable vs (Delta_ip_boxes k) [dim, 4]) (\<lambda>delta_boxes_weights.
                bnd (matmul ip1 delta_boxes_weights) (\<lambda>prod_boxes.
                bnd (reshape (tmap (\<lambda>x. x * 5) prod_boxes) [outer_size, 1, 4]) (\<lambda>d.
                Inr (Some d))))
           else Inr None) (\<lambda>boxes_delta.
      let scale = (case rezoom_conf_scale hyp of None \<Rightarrow> 50 | Some c \<Rightarrow> c) in
      bnd (matmul ip1 delta_confs_weights) (\<lambda>prod2.
      bnd (reshape (tmap (\<lambda>x. x * scale) prod2) [outer_size, 1, num_classes hyp]) (\<lambda>confs_delta.
      Inr (confs_delta, boxes_delta))))))))))"

fun delta_slots ::
  "(nat \<Rightarrow> error + (real tensor \<times> real tensor option)) \<Rightarrow> nat list
     \<Rightarrow> error + (real tensor list \<times> real tensor list)" where
  "delta_slots body [] = Inr ([], [])"
| "delta_slots body (k # ks) =
     bnd (body k) (\<lambda>(c, b).
     bnd (delta_slots body ks) (\<lambda>(cs, bs).
     Inr (c # cs, (case b of None \<Rightarrow> bs | Some d \<Rightarrow> d # bs))))"

text \<open>What \<^verbatim>\<open>apply_rezoom\<close> returns for the box deltas: a tensor under \<^verbatim>\<open>reregress\<close>, the
  empty Python list otherwise; the decoder without rezoom yields \<^verbatim>\<open>None\<close>.\<close>

datatype deltas = NoDeltas | EmptyList | Deltas "real tensor"

definition apply_rezoom ::
  "train_utils \<Rightarrow> hyp \<Rightarrow> variables \<Rightarrow> draws \<Rightarrow> phase \<Rightarrow> real tensor \<Rightarrow> real tensor
     \<Rightarrow> real tensor \<Rightarrow> real tensor \<Rightarrow> error + (real tensor \<times> deltas)" where
  "apply_rezoom u hyp vs rnd ph early_feat0 raw_output pred_box pred_confidences0 =
     (let feat_channels = early_feat_channels hyp;
          grid_size = grid_width hyp * grid_height hyp;
          outer_size = grid_size * batch_size hyp;
          w_offsets = rezoom_w_coords hyp;
          h_offsets = rezoom_h_coords hyp in
      bnd (slice_last 4 early_feat0 0 feat_channels) (\<lambda>early_feat.
      bnd (rezoom u hyp pred_box early_feat feat_channels w_offsets h_offsets)
        (\<lambda>rezoom_features0.
      let rezoom_features =
            (if ph = Train then dropout rezoom_features0 0.5 (rnd Drop_rezoom)
             else rezoom_features0) in
      bnd (delta_slots (delta_slot hyp vs rnd ph raw_output rezoom_features) [0..<rnn_len hyp])
        (\<lambda>(confs_list, boxes_list).
      bnd (concat1 confs_list) (\<lambda>pred_confs_deltas0.
      bnd (reshape pred_confs_deltas0 [outer_size * rnn_len hyp, num_classes hyp])
        (\<lambda>pred_confs_deltas.
      bnd (reshape pred_confs_deltas [outer_size * rnn_len hyp, num_classes hyp])
        (\<lambda>pred_logits_squash.
      bnd (softmax pred_logits_squash) (\<lambda>pred_confidences_squash.
      bnd (reshape pred_confidences_squash [outer_size, rnn_len hyp, num_classes hyp])
        (\<lambda>pred_confidences.
      bnd (if reregress hyp then bnd (concat1 boxes_list) (\<lambda>d. Inr (Deltas d))
           else Inr EmptyList) (\<lambda>pred_boxes_deltas.
      Inr (pred_confs_deltas, pred_boxes_deltas)))))))))))"

section \<open>The decoder\<close>

definition build_yolo_fc_layer :: "hyp \<Rightarrow> variables \<Rightarrow> real tensor \<Rightarrow> error + real tensor" where
  "build_yolo_fc_layer hyp vs cnn_output =
     (let scale_down = 0.01;
          grid_size = grid_width hyp * grid_height hyp;
          channels = cnn_channels hyp in
      bnd (reshape (tmap (\<lambda>x. x * scale_down) cnn_output) [batch_size hyp * grid_size, channels])
        (\<lambda>lstm_input.
      bnd (get_variable vs Ip [cnn_channels hyp, lstm_size hyp]) (\<lambda>w.
      matmul lstm_input w)))"

type_synonym decoded =
  "real tensor \<times> real tensor \<times> real tensor \<times> real tensor option \<times> deltas"

definition decoder ::
  "train_utils \<Rightarrow> hyp \<Rightarrow> variables \<Rightarrow> draws \<Rightarrow> real tensor \<times> real tensor \<Rightarrow> phase
     \<Rightarrow> error + decoded" where
  "decoder u hyp vs rnd logits ph =
     (case logits of (cnn_output0, early_feat) \<Rightarrow>
      let grid_size = grid_width hyp * grid_height hyp;
          outer_size = grid_size * batch_size hyp;
          num_ex = batch_size hyp * grid_width hyp * grid_height hyp;
          channels = cnn_channels hyp in
      bnd (reshape cnn_output0 [num_ex, channels]) (\<lambda>cnn_output.
      bnd (build_yolo_fc_layer hyp vs cnn_output) (\<lambda>raw_output0.
      let raw_output = (if ph = Train then dropout raw_output0 0.5 (rnd Drop_raw)
                        else raw_output0) in
      bnd (get_variable vs Box_ip [lstm_size hyp, 4]) (\<lambda>box_weights.
      bnd (get_variable vs Conf_ip [lstm_size hyp, num_classes hyp]) (\<lambda>conf_weights.
      bnd (matmul raw_output box_weights) (\<lambda>prod_box.
      bnd (reshape (tmap (\<lambda>x. x * 50) prod_box) [outer_size, 1, 4]) (\<lambda>pred_box.
      bnd (matmul raw_output conf_weights) (\<lambda>prod_conf.
      bnd (reshape prod_conf [outer_size, num_classes hyp]) (\<lambda>pred_logits.
      bnd (softmax pred_logits) (\<lambda>pred_confidences0.
      bnd (reshape pred_confidences0 [outer_size, rnn_len hyp, num_classes hyp])
        (\<lambda>pred_confidences.
      bnd (if use_rezoom hyp
           then bnd (apply_rezoom u hyp vs rnd ph early_feat raw_output pred_box pred_confidences)
                  (\<lambda>(c, d). Inr (Some c, d))
           else Inr (None, NoDeltas)) (\<lambda>(pred_confs_deltas, pred_boxes_deltas).
      Inr (pred_box, pred_logits, pred_confidences, pred_confs_deltas, pred_boxes_deltas)
      ))))))))))))"

section \<open>The loss\<close>

text \<open>Python's \<^verbatim>\<open>xs[i]\<close> for a list and a non-negative index.\<close>

definition index :: "'a list \<Rightarrow> nat \<Rightarrow> error + 'a" where
  "index xs i = (if i < length xs then Inr (xs ! i) else Inl IndexError)"

text \<open>\<^verbatim>\<open>tf.reduce_sum(t, 2)\<close> of a rank-3 tensor.\<close>

definition reduce_sum_axis2 :: "real tensor \<Rightarrow> error + real tensor" where
  "reduce_sum_axis2 t =
     (if length (shape t) = 3
      then Inr (Tensor [shape t ! 0, shape t ! 1]
                  (map sum_list (rows_of (shape t ! 0 * shape t ! 1) (shape t ! 2) (elems t))))
      else Inl ShapeError)"

text \<open>The first part of \<^verbatim>\<open>loss\<close>: the assignment of ground truth to the predicted slots.
  The labels are \<^verbatim>\<open>flags\<close> (integers, 0 for no object) and \<^verbatim>\<open>boxes\<close>.  With \<^verbatim>\<open>use_lstm\<close>
  the matching operation is called; otherwise the flags and the boxes are taken as they
  are and the mask is 1 where the class is positive.\<close>

definition loss_matching ::
  "train_utils \<Rightarrow> hyp \<Rightarrow> real tensor \<Rightarrow> int tensor \<Rightarrow> real tensor
     \<Rightarrow> error + (int tensor \<times> real tensor \<times> real tensor)" where
  "loss_matching u hypes pred_boxes flags boxes =
     (let grid_size = grid_width hypes * grid_height hypes;
          outer_size = grid_size * batch_size hypes in
      bnd (reshape boxes [outer_size, rnn_len hypes, 4]) (\<lambda>outer_boxes.
      bnd (reshape flags [outer_size, rnn_len hypes]) (\<lambda>outer_flags.
      if use_lstm hypes
      then bnd (hungarian u pred_boxes outer_boxes outer_flags (hungarian_iou hypes))
             (\<lambda>(assignments, classes, perm_truth, pred_mask).
                Inr (classes, perm_truth, pred_mask))
      else bnd (reshape flags [outer_size, 1]) (\<lambda>classes.
           bnd (reshape outer_boxes [outer_size, 1, 4]) (\<lambda>perm_truth.
           bnd (reshape (tmap (\<lambda>c. of_bool_real (0 < c)) classes) [outer_size, 1, 1])
             (\<lambda>pred_mask.
           Inr (classes, perm_truth, pred_mask)))))))"

text \<open>The target of the delta-confidence loss, by \<^verbatim>\<open>rezoom_change_loss\<close>.  The empty string
  stands for the false values of Python, on which the last branch's \<^verbatim>\<open>assert\<close> passes.\<close>

definition inside_target ::
  "train_utils \<Rightarrow> hyp \<Rightarrow> real tensor \<Rightarrow> real tensor \<Rightarrow> int tensor \<Rightarrow> error + int tensor" where
  "inside_target u hypes pred_boxes perm_truth classes =
     (if rezoom_change_loss hypes = ''center''
      then bnd (slice_last 3 perm_truth 0 2) (\<lambda>truth_xy.
           bnd (slice_last 3 pred_boxes 0 2) (\<lambda>pred_xy.
           bnd (slice_last 3 perm_truth 2 4) (\<lambda>truth_wh.
           bnd (binop (-) truth_xy pred_xy) (\<lambda>offset.
           bnd (binop (/) offset (tmap (\<lambda>x. max x 1) truth_wh)) (\<lambda>error.
           bnd (reduce_sum_axis2 (tmap (\<lambda>x. x\<^sup>2) error)) (\<lambda>square_error.
           bnd (binop (\<and>) (tmap (\<lambda>x. x < (0.2)\<^sup>2) square_error)
                            (tmap (\<lambda>c. 0 < c) classes)) (\<lambda>both.
           Inr (reshape_flat (tmap of_bool_int both)))))))))
      else if rezoom_change_loss hypes = ''iou''
      then bnd (reshape_rows pred_boxes 4) (\<lambda>pred_boxes_flat.
           bnd (reshape_rows perm_truth 4) (\<lambda>perm_truth_flat.
           bnd (to_x1y1x2y2 u pred_boxes_flat) (\<lambda>pred_corners.
           bnd (to_x1y1x2y2 u perm_truth_flat) (\<lambda>truth_corners.
           bnd (iou u pred_corners truth_corners) (\<lambda>iou.
           Inr (reshape_flat (tmap (\<lambda>x. of_bool_int (0.5 < x)) iou)))))))
      else if rezoom_change_loss hypes \<noteq> []
      then Inl AssertionError
      else Inr (reshape_flat (tmap (\<lambda>c. of_bool_int (0 < c)) classes)))"

text \<open>The histogram summaries of the box deltas read \<^verbatim>\<open>pred_boxes_deltas[:, 0, c]\<close> for
  \<open>c\<close> up to 3.\<close>

definition delta_histograms :: "real tensor \<Rightarrow> error + unit" where
  "delta_histograms d =
     (if length (shape d) = 3 \<and> 0 < shape d ! 1 \<and> 3 < shape d ! 2 then Inr ()
      else Inl ShapeError)"

text \<open>\<^verbatim>\<open>loss\<close>.  The collection \<^verbatim>\<open>losses\<close> of the graph is state: the function takes the
  terms registered so far, appends its own and returns the sum of all of them as
  \<^verbatim>\<open>total_loss\<close>, with the confidence loss and the box loss.  Division is that of the
  reals; \<open>outer_size\<close> is positive on every grid that has a cell.\<close>

definition register :: "real list \<Rightarrow> real \<Rightarrow> real \<Rightarrow> real
                          \<Rightarrow> error + ((real \<times> real \<times> real) \<times> real list)" where
  "register losses l confidences_loss boxes_loss =
     Inr ((sum_list (losses @ [l]), confidences_loss, boxes_loss), losses @ [l])"

definition loss ::
  "train_utils \<Rightarrow> hyp \<Rightarrow> decoded \<Rightarrow> int tensor \<times> real tensor \<times> real tensor \<Rightarrow> phase
     \<Rightarrow> real list \<Rightarrow> error + ((real \<times> real \<times> real) \<times> real list)" where
  "loss u hypes decoded_logits labels ph losses =
     (case labels of (flags, confidences, boxes) \<Rightarrow>
      case decoded_logits of
        (pred_boxes, pred_logits, pred_confidences, pred_confs_deltas, pred_boxes_deltas) \<Rightarrow>
      let grid_size = grid_width hypes * grid_height hypes;
          outer_size = grid_size * batch_size hypes in
      bnd (loss_matching u hypes pred_boxes flags boxes) (\<lambda>(classes, perm_truth, pred_mask).
      bnd (reshape (tmap (\<lambda>c. of_bool_int (0 < c)) classes) [outer_size * rnn_len hypes])
        (\<lambda>true_classes.
      bnd (reshape pred_logits [outer_size * rnn_len hypes, num_classes hypes])
        (\<lambda>pred_logit_r.
      bnd (sparse_softmax_cross_entropy_with_logits pred_logit_r true_classes)
        (\<lambda>cross_entropy.
      let cross_entropy_sum = reduce_sum cross_entropy;
          head = head_weights hypes in
      bnd (index head 0) (\<lambda>head0.
      let confidences_loss = cross_entropy_sum / real outer_size * head0 in
      bnd (binop (*) pred_boxes pred_mask) (\<lambda>masked_boxes.
      bnd (binop (-) perm_truth masked_boxes) (\<lambda>difference.
      bnd (reshape difference [outer_size, rnn_len hypes, 4]) (\<lambda>residual.
      bnd (index head 1) (\<lambda>head1.
      let boxes_loss = reduce_sum (tmap abs residual) / real outer_size * head1 in
      if use_rezoom hypes
      then bnd (inside_target u hypes pred_boxes perm_truth classes) (\<lambda>inside.
           bnd (case pred_confs_deltas of
                  None \<Rightarrow> Inl NoneError
                | Some d \<Rightarrow> sparse_softmax_cross_entropy_with_logits d inside)
             (\<lambda>cross_entropy2.
           bnd (index (head_weights hypes) 0) (\<lambda>weight0.
           let delta_confs_loss =
                 reduce_sum cross_entropy2 / real outer_size * weight0 * 0.1;
               l = confidences_loss + boxes_loss + delta_confs_loss in
           if reregress hypes
           then bnd (case pred_boxes_deltas of
                       NoDeltas \<Rightarrow> Inl NoneError
                     | EmptyList \<Rightarrow> Inl ShapeError
                     | Deltas d \<Rightarrow> bnd (binop (+) pred_boxes d) (\<lambda>c. Inr (c, d)))
                  (\<lambda>(corrected, d).
                bnd (binop (-) perm_truth corrected) (\<lambda>delta_unshaped.
                bnd (binop (*) delta_unshaped pred_mask) (\<lambda>masked_delta.
                bnd (reshape masked_delta [outer_size, rnn_len hypes, 4]) (\<lambda>delta_residual.
                let sqrt_delta = tmap (\<lambda>x. min (x\<^sup>2) (10\<^sup>2)) delta_residual;
                    delta_boxes_loss =
                      reduce_sum sqrt_delta / real outer_size * head1 * 0.03 in
                bnd (delta_histograms d) (\<lambda>_.
                register losses (l + delta_boxes_loss) confidences_loss delta_boxes_loss)))))
           else register losses l confidences_loss boxes_loss)))
      else register losses (confidences_loss + boxes_loss) confidences_loss boxes_loss
      ))))))))))"

section \<open>The evaluation\<close>

text \<open>\<^verbatim>\<open>tf.argmax(t, 2)\<close> of a rank-3 tensor: the first index of the greatest entry of every
  row; an empty axis is rejected.\<close>

definition argmax_row :: "real list \<Rightarrow> nat" where
  "argmax_row xs = position (fold max xs (hd xs)) xs"

definition argmax_axis2 :: "real tensor \<Rightarrow> error + nat tensor" where
  "argmax_axis2 t =
     (if length (shape t) = 3 \<and> 0 < shape t ! 2
      then Inr (Tensor [shape t ! 0, shape t ! 1]
                  (map argmax_row (rows_of (shape t ! 0 * shape t ! 1) (shape t ! 2) (elems t))))
      else Inl ShapeError)"

text \<open>The accuracy of one phase, the body of the loop of \<^verbatim>\<open>evaluation\<close>: the share of the
  cells whose predicted class at slot 0 is the labelled one.  It also yields the two
  reshaped predictions, which the image summaries read after the loop.\<close>

definition phase_accuracy ::
  "hyp \<Rightarrow> int tensor \<times> real tensor \<times> real tensor \<Rightarrow> decoded
     \<Rightarrow> error + (real \<times> real tensor \<times> real tensor)" where
  "phase_accuracy hyp labels decoded_logits =
     (case labels of (flags, confidences, boxes) \<Rightarrow>
      case decoded_logits of
        (pred_boxes, pred_logits, pred_confidences, pred_confs_deltas, pred_boxes_deltas) \<Rightarrow>
      let grid_size = grid_width hyp * grid_height hyp in
      bnd (reshape pred_confidences
             [batch_size hyp, grid_size, rnn_len hyp, num_classes hyp]) (\<lambda>pred_confidences_r.
      bnd (reshape pred_boxes [batch_size hyp, grid_size, rnn_len hyp, 4]) (\<lambda>pred_boxes_r.
      bnd (select_axis2 confidences 0) (\<lambda>true_slot0.
      bnd (argmax_axis2 true_slot0) (\<lambda>true_class.
      bnd (select_axis2 pred_confidences_r 0) (\<lambda>pred_slot0.
      bnd (argmax_axis2 pred_slot0) (\<lambda>pred_class.
      bnd (binop (=) true_class pred_class) (\<lambda>a.
      Inr (reduce_mean (tmap of_bool_real a), pred_confidences_r, pred_boxes_r)))))))))"

text \<open>\<^verbatim>\<open>t[0, :, :, :]\<close>, read by the image summaries.\<close>

definition first_image :: "real tensor \<Rightarrow> error + real tensor" where
  "first_image t =
     (if length (shape t) = 4 \<and> 0 < shape t ! 0
      then Inr (Tensor (tl (shape t)) (take (prod_list (tl (shape t))) (elems t)))
      else Inl ShapeError)"

text \<open>\<^verbatim>\<open>evaluation\<close> returns the accuracies of the two phases and \<^verbatim>\<open>smooth_op\<close>, the update
  of the exponential moving averages (decay 0.95) of the two accuracies and of four of
  the losses, here a function from the averages before to the averages after.  Writing
  the summaries and the two images is not modelled; the slices they take are.\<close>

definition evaluation ::
  "hyp \<Rightarrow> 'img \<Rightarrow> (phase \<Rightarrow> int tensor \<times> real tensor \<times> real tensor) \<Rightarrow> (phase \<Rightarrow> decoded)
     \<Rightarrow> (phase \<Rightarrow> real \<times> real \<times> real) \<Rightarrow> nat
     \<Rightarrow> error + ((real \<times> real) \<times> (real list \<Rightarrow> real list))" where
  "evaluation hyp images labels decoded_logits losses global_step =
     bnd (phase_accuracy hyp (labels Train) (decoded_logits Train))
       (\<lambda>(accuracy_train, _, _).
     bnd (phase_accuracy hyp (labels Val) (decoded_logits Val))
       (\<lambda>(accuracy_val, pred_confidences_r, pred_boxes_r).
     let tracked = [accuracy_train, accuracy_val,
                    fst (snd (losses Train)), snd (snd (losses Train)),
                    fst (snd (losses Val)), snd (snd (losses Val))];
         smooth_op = (\<lambda>averages. map2 (\<lambda>a v. 0.95 * a + (1 - 0.95) * v) averages tracked) in
     bnd (first_image (fst (snd (labels Val)))) (\<lambda>test_true_confidences.
     bnd (first_image (snd (snd (labels Val)))) (\<lambda>test_true_boxes.
     bnd (first_image pred_confidences_r) (\<lambda>test_pred_confidences.
     bnd (first_image pred_boxes_r) (\<lambda>test_pred_boxes.
     Inr ((accuracy_train, accuracy_val), smooth_op)))))))"

section \<open>Well-shaped inputs\<close>

text \<open>The variables the decoder reads exist with the shapes it declares (for one slot).\<close>

definition has_shape :: "variables \<Rightarrow> var \<Rightarrow> nat list \<Rightarrow> bool" where
  "has_shape vs v s = (case vs v of None \<Rightarrow> False | Some t \<Rightarrow> shape t = s)"

definition variables_declared :: "hyp \<Rightarrow> variables \<Rightarrow> bool" where
  "variables_declared hyp vs \<longleftrightarrow>
     has_shape vs Ip [cnn_channels hyp, lstm_size hyp]
   \<and> has_shape vs Box_ip [lstm_size hyp, 4]
   \<and> has_shape vs Conf_ip [lstm_size hyp, num_classes hyp]
   \<and> (use_rezoom hyp \<longrightarrow>
        has_shape vs (Delta_ip1 0)
          [lstm_size hyp + early_feat_channels hyp
             * (length (rezoom_w_coords hyp) * length (rezoom_h_coords hyp)), 128]
      \<and> has_shape vs (Delta_ip2 0) [128, num_classes hyp]
      \<and> (reregress hyp \<longrightarrow> has_shape vs (Delta_ip_boxes 0) [128, 4]))"

section \<open>Example inputs\<close>

text \<open>A choice of the open parts of the utility library: the interpolation index of a box
  is its centre displaced by the offsets times its extent, a sample adds the index
  coordinates and the channel number, corners and IoU are the usual ones, and no matcher
  is installed.\<close>

definition example_utils :: train_utils where
  "example_utils =
     \<lparr>select_point = (\<lambda>hyp b box w h. (0, box ! 1 + h * box ! 3, box ! 0 + w * box ! 2)),
      sample = (\<lambda>feat r c. r ! 1 + r ! 2 + real c),
      corners = (\<lambda>r. (r ! 0 - r ! 2 / 2, r ! 1 - r ! 3 / 2, r ! 0 + r ! 2 / 2, r ! 1 + r ! 3 / 2)),
      iou_box = (\<lambda>p q.
         let i = max 0 (min (p ! 2) (q ! 2) - max (p ! 0) (q ! 0))
               * max 0 (min (p ! 3) (q ! 3) - max (p ! 1) (q ! 1));
             a = (p ! 2 - p ! 0) * (p ! 3 - p ! 1);
             b = (q ! 2 - q ! 0) * (q ! 3 - q ! 1)
         in i / (a + b - i)),
      hungarian = (\<lambda>pred_boxes boxes flags iou_threshold. Inl NoneError)\<rparr>"

text \<open>One image with a grid of two cells, one slot per cell, two classes.\<close>

definition example_hyp :: hyp where
  "example_hyp =
     \<lparr>grid_width = 2, grid_height = 1, batch_size = 1, rnn_len = 1, num_classes = 2,
      cnn_channels = 1, lstm_size = 1, early_feat_channels = 1,
      rezoom_w_coords = [0], rezoom_h_coords = [0], use_rezoom = False, reregress = False,
      use_lstm = False, rezoom_change_loss = ''center'', rezoom_conf_scale = None,
      head_weights = [1, 1], hungarian_iou = 0.5\<rparr>"

definition example_variables :: variables where
  "example_variables =
     (\<lambda>v. case v of
            Ip \<Rightarrow> Some (Tensor [1, 1] [1])
          | Box_ip \<Rightarrow> Some (Tensor [1, 4] [1, 2, 3, 4])
          | Conf_ip \<Rightarrow> Some (Tensor [1, 2] [1, 0])
          | Delta_ip1 k \<Rightarrow> Some (Tensor [2, 128] (replicate 256 0))
          | Delta_ip2 k \<Rightarrow> Some (Tensor [128, 2] (replicate 256 0))
          | Delta_ip_boxes k \<Rightarrow> Some (Tensor [128, 4] (replicate 512 0)))"

definition example_logits :: "real tensor \<times> real tensor" where
  "example_logits = (Tensor [1, 1, 2, 1] [100, 200], Tensor [1, 2, 4, 1] [1, 2, 3, 4, 5, 6, 7, 8])"

definition example_draws :: draws where
  "example_draws = (\<lambda>s i. even i)"

definition example_pred_boxes :: "real tensor" where
  "example_pred_boxes = Tensor [2, 1, 4] [10, 20, 2, 4, 30, 40, 6, 8]"

definition example_early_feat :: "real tensor" where
  "example_early_feat = Tensor [1, 2, 4, 1] [1, 2, 3, 4, 5, 6, 7, 8]"

text \<open>Predictions and labels for the two cells: the first cell holds an object, the
  second holds none, and its label box is not zero.\<close>

definition example_decoded :: decoded where
  "example_decoded =
     (example_pred_boxes, Tensor [2, 2] [0, 0, 0, 0], Tensor [2, 1, 2] [1/2, 1/2, 1/2, 1/2],
      None, NoDeltas)"

definition example_hyp_rezoom :: hyp where
  "example_hyp_rezoom = example_hyp\<lparr>use_rezoom := True, reregress := True\<rparr>"

text \<open>Delta logits and box deltas for the two cells; the first delta leaves a residual of
  20 at the first coordinate of the first cell.\<close>

definition example_deltas :: "real tensor" where
  "example_deltas = Tensor [2, 1, 4] [-19, 0, 0, 0, 0, 0, 0, 0]"

definition example_decoded_rezoom :: decoded where
  "example_decoded_rezoom =
     (example_pred_boxes, Tensor [2, 2] [0, 0, 0, 0], Tensor [2, 1, 2] [1/2, 1/2, 1/2, 1/2],
      Some (Tensor [2, 2] [0, 0, 0, 0]), Deltas example_deltas)"

text \<open>Predictions for the policy \<^verbatim>\<open>iou\<close>: the box predicted for the first cell is its
  label box.\<close>

definition example_hyp_iou :: hyp where
  "example_hyp_iou = example_hyp\<lparr>use_rezoom := True, rezoom_change_loss := ''iou''\<rparr>"

definition example_decoded_iou :: decoded where
  "example_decoded_iou =
     (Tensor [2, 1, 4] [11, 22, 2, 4, 30, 40, 6, 8], Tensor [2, 2] [0, 0, 0, 0],
      Tensor [2, 1, 2] [1/2, 1/2, 1/2, 1/2], Some (Tensor [2, 2] [0, 0, 0, 0]), EmptyList)"

definition example_labels :: "int tensor \<times> real tensor \<times> real tensor" where
  "example_labels =
     (Tensor [1, 2, 1] [1, 0], Tensor [1, 2, 1, 2] [0, 1, 1, 0],
      Tensor [1, 2, 1, 4] [11, 22, 2, 4, 1, 2, 3, 4])"

section \<open>Basic facts\<close>

lemma bnd_Inr_iff: "bnd m f = Inr y \<longleftrightarrow> (\<exists>x. m = Inr x \<and> f x = Inr y)"
  by (cases m) (simp_all add: bnd_def)

lemma bnd_Inr [simp]: "bnd (Inr x) f = f x"
  by (simp add: bnd_def)

lemma bnd_Inl [simp]: "bnd (Inl e) f = Inl e"
  by (simp add: bnd_def)

lemma reshape_Inr_iff:
  "reshape t d = Inr r \<longleftrightarrow> prod_list d = prod_list (shape t) \<and> r = Tensor d (elems t)"
  by (auto simp: reshape_def)

lemma softmax_Inr_shape: "softmax t = Inr r \<Longrightarrow> shape r = shape t"
  by (auto simp: softmax_def split: if_splits)

lemma shape_tmap [simp]: "shape (tmap f t) = shape t"
  by (simp add: tmap_def)

lemma elems_tmap [simp]: "elems (tmap f t) = map f (elems t)"
  by (simp add: tmap_def)

lemma shape_dropout [simp]: "shape (dropout t p k) = shape t"
  by (simp add: dropout_def)

lemma shape_relu [simp]: "shape (relu t) = shape t"
  by (simp add: relu_def)

lemma matmul_ok:
  "shape a = [m, k] \<Longrightarrow> shape b = [k, n] \<Longrightarrow> \<exists>t. matmul a b = Inr t \<and> shape t = [m, n]"
  by (simp add: matmul_def Let_def)

lemma softmax_ok: "shape t = [n, c] \<Longrightarrow> \<exists>r. softmax t = Inr r \<and> shape r = [n, c]"
  by (simp add: softmax_def)

lemma has_shape_get: "has_shape vs v s \<Longrightarrow> \<exists>t. vs v = Some t \<and> shape t = s"
  by (auto simp: has_shape_def split: option.splits)

subsection \<open>Lists cut into rows, and row-major positions\<close>

lemma length_concat_uniform:
  "(\<And>x. x \<in> set xs \<Longrightarrow> length (f x) = c) \<Longrightarrow> length (concat (map f xs)) = length xs * c"
  by (induction xs) auto

lemma take_drop_concat_block:
  "(\<And>x. x \<in> set xs \<Longrightarrow> length (f x) = L) \<Longrightarrow> q < length xs \<Longrightarrow> d + c \<le> L
     \<Longrightarrow> take c (drop (q * L + d) (concat (map f xs))) = take c (drop d (f (xs ! q)))"
proof (induction xs arbitrary: q)
  case Nil
  then show ?case by simp
next
  case (Cons x xs)
  show ?case
  proof (cases q)
    case 0
    with Cons.prems show ?thesis by simp
  next
    case (Suc q')
    with Cons.prems have "take c (drop (q' * L + d) (concat (map f xs))) = take c (drop d (f (xs ! q')))"
      by (intro Cons.IH) auto
    moreover have "q * L + d - length (f x) = q' * L + d" "length (f x) \<le> q * L + d"
      using Cons.prems(1)[of x] Suc by simp_all
    ultimately show ?thesis using Cons.prems Suc by simp
  qed
qed

lemma take_drop_concat_uniform:
  "(\<And>x. x \<in> set xs \<Longrightarrow> length (f x) = c) \<Longrightarrow> q < length xs
     \<Longrightarrow> take c (drop (q * c) (concat (map f xs))) = f (xs ! q)"
  using take_drop_concat_block[of xs f c q 0 c] by simp

lemma nth_concat_uniform:
  assumes "\<And>x. x \<in> set xs \<Longrightarrow> length (f x) = c" "q < length xs" "j < c"
  shows "concat (map f xs) ! (q * c + j) = f (xs ! q) ! j"
proof -
  have "take c (drop (q * c) (concat (map f xs))) ! j = f (xs ! q) ! j"
    using take_drop_concat_uniform[OF assms(1,2)] by simp
  moreover have "q * c + c \<le> length (concat (map f xs))"
  proof -
    have "Suc q * c \<le> length xs * c" using assms(2) by (intro mult_le_mono1) simp
    then show ?thesis using length_concat_uniform[of xs f c] assms(1) by simp
  qed
  ultimately show ?thesis using assms(3) by simp
qed

lemma ravel_less: "list_all2 (<) idx s \<Longrightarrow> ravel s idx < prod_list s"
proof (induction s arbitrary: idx)
  case Nil
  then show ?case by simp
next
  case (Cons d ds)
  then obtain i "is" where idx: "idx = i # is" and i: "i < d" and r: "list_all2 (<) is ds"
    by (auto simp: list_all2_Cons2)
  from Cons.IH[OF r] have lt: "ravel ds is < prod_list ds" .
  have "i * prod_list ds + ravel ds is < i * prod_list ds + prod_list ds" using lt by simp
  also have "\<dots> = Suc i * prod_list ds" by simp
  also have "\<dots> \<le> d * prod_list ds" using i by (intro mult_le_mono1) simp
  finally show ?case by (simp add: idx)
qed

lemma unravel_ravel: "list_all2 (<) idx s \<Longrightarrow> unravel s (ravel s idx) = idx"
proof (induction s arbitrary: idx)
  case Nil
  then show ?case by simp
next
  case (Cons d ds)
  then obtain i "is" where idx: "idx = i # is" and i: "i < d" and r: "list_all2 (<) is ds"
    by (auto simp: list_all2_Cons2)
  from ravel_less[OF r] have lt: "ravel ds is < prod_list ds" .
  from Cons.IH[OF r] show ?case using lt by (simp add: idx)
qed

lemma select_all_Inr:
  "(\<And>p. p \<in> set ps \<Longrightarrow> f p = Inr (g p)) \<Longrightarrow> select_all f ps = Inr (map g ps)"
  by (induction ps) simp_all

lemma select_all_Inr_D:
  "select_all f ps = Inr ts \<Longrightarrow> length ts = length ps \<and> (\<forall>q < length ps. f (ps ! q) = Inr (ts ! q))"
proof (induction ps arbitrary: ts)
  case Nil
  then show ?case by simp
next
  case (Cons p ps)
  then obtain t ts' where t: "f p = Inr t" and ts': "select_all f ps = Inr ts'" and e: "ts = t # ts'"
    by (auto simp: bnd_Inr_iff)
  from Cons.IH[OF ts'] t e show ?case by (auto simp: nth_Cons split: nat.splits)
qed

lemma transpose_t_nth:
  assumes "transpose_t t perm = Inr T"
  shows "shape T = map (\<lambda>p. shape t ! p) perm"
    and "j < prod_list (shape T) \<Longrightarrow>
           elems T ! j = elems t ! ravel (shape t)
              (map (\<lambda>ax. unravel (shape T) j ! position ax perm) [0..<length perm])"
  using assms by (auto simp: transpose_t_def Let_def split: if_splits)

lemma transpose_1203_entry:
  assumes t: "transpose_t (Tensor [a, n, r, e] X) [1, 2, 0, 3] = Inr T"
    and "i < n" "k < r" "o' < a" "c < e"
  shows "shape T = [n, r, a, e]"
    and "elems T ! (((i * r + k) * a + o') * e + c) = X ! (((o' * n + i) * r + k) * e + c)"
proof -
  show sh: "shape T = [n, r, a, e]" using transpose_t_nth(1)[OF t] by simp
  have idx: "list_all2 (<) [i, k, o', c] [n, r, a, e]" using assms by simp
  have j: "ravel [n, r, a, e] [i, k, o', c] = ((i * r + k) * a + o') * e + c"
    by (simp add: algebra_simps)
  have lt: "((i * r + k) * a + o') * e + c < prod_list (shape T)"
    using ravel_less[OF idx] unfolding j sh .
  have un: "unravel [n, r, a, e] (((i * r + k) * a + o') * e + c) = [i, k, o', c]"
    using unravel_ravel[OF idx] unfolding j .
  have four: "[0..<length [1, 2, 0, 3::nat]] = [0, 1, 2, 3]" by (simp add: upt_rec)
  have "elems T ! (((i * r + k) * a + o') * e + c)
          = X ! ravel [a, n, r, e]
                (map (\<lambda>ax. [i, k, o', c] ! position ax [1, 2, 0, 3::nat]) [0, 1, 2, 3])"
    using transpose_t_nth(2)[OF t lt] unfolding sh un four by simp
  also have "\<dots> = X ! (((o' * n + i) * r + k) * e + c)"
    by (simp add: algebra_simps)
  finally show "elems T ! (((i * r + k) * a + o') * e + c) = X ! (((o' * n + i) * r + k) * e + c)" .
qed

subsection \<open>The utility library and the rezoom, step by step\<close>

lemma bilinear_select_Inr:
  assumes "bilinear_select u hyp pb ef efc w h = Inr t"
  shows "shape t = [prod_list (shape pb) div 4, 3]"
    and "length (elems t) = prod_list (shape pb) div 4 * 3"
proof -
  from assms have t: "t = Tensor [prod_list (shape pb) div 4, 3]
      (concat (map (\<lambda>b. case select_point u hyp b (take 4 (drop (b * 4) (elems pb))) w h of
                            (n, y, x) \<Rightarrow> [n, y, x])
                   [0..<prod_list (shape pb) div 4]))"
    by (auto simp: bilinear_select_def reshape_rows_def bnd_Inr_iff split: if_splits)
  show "shape t = [prod_list (shape pb) div 4, 3]" by (simp add: t)
  have "length (elems t) = length [0..<prod_list (shape pb) div 4] * 3"
    unfolding t tensor.sel by (rule length_concat_uniform) (simp split: prod.splits)
  then show "length (elems t) = prod_list (shape pb) div 4 * 3" by simp
qed

lemma concat0_Inr:
  assumes "concat0 ts = Inr ii" and "\<And>t. t \<in> set ts \<Longrightarrow> shape t = [m, c]"
  shows "shape ii = [length ts * m, c]" and "elems ii = concat (map elems ts)"
proof -
  from assms(1) have ne: "ts \<noteq> []"
    and ii: "ii = Tensor (sum_list (map (\<lambda>t. hd (shape t)) ts) # tl (shape (hd ts)))
                    (concat (map elems ts))"
    by (auto simp: concat0_def split: if_splits)
  have "map (\<lambda>t. hd (shape t)) ts = map (\<lambda>t. m) ts" using assms(2) by simp
  then have "sum_list (map (\<lambda>t. hd (shape t)) ts) = sum_list (map (\<lambda>t. m) ts)"
    by (rule arg_cong)
  then have "sum_list (map (\<lambda>t. hd (shape t)) ts) = length ts * m"
    by (simp only: sum_list_triv) simp
  moreover have "tl (shape (hd ts)) = [c]" using ne assms(2)[of "hd ts"] by simp
  ultimately show "shape ii = [length ts * m, c]" by (simp add: ii)
  show "elems ii = concat (map elems ts)" by (simp add: ii)
qed

lemma interp_entry:
  assumes "interp u w idx ch = Inr smp" and "shape idx = [m, 3]" and "b < m" and "c < ch"
  shows "shape smp = [m, ch]"
    and "elems smp ! (b * ch + c) = sample u w (take 3 (drop (b * 3) (elems idx))) c"
proof -
  from assms(1,2) have smp: "smp = Tensor [m, ch]
      (concat (map (\<lambda>r. map (sample u w r) [0..<ch]) (rows_of m 3 (elems idx))))"
    by (auto simp: interp_def split: if_splits)
  show "shape smp = [m, ch]" by (simp add: smp)
  have "concat (map (\<lambda>r. map (sample u w r) [0..<ch]) (rows_of m 3 (elems idx))) ! (b * ch + c)
          = map (sample u w (rows_of m 3 (elems idx) ! b)) [0..<ch] ! c"
    by (rule nth_concat_uniform) (use assms(3,4) in \<open>simp_all add: rows_of_def\<close>)
  then show "elems smp ! (b * ch + c) = sample u w (take 3 (drop (b * 3) (elems idx))) c"
    using assms(3,4) by (simp add: smp rows_of_def)
qed

lemma concat1_single:
  "2 \<le> length (shape c) \<Longrightarrow> \<exists>t. concat1 [c] = Inr t \<and> shape t = shape c"
proof -
  assume l: "2 \<le> length (shape c)"
  then obtain d0 d1 ds where s: "shape c = d0 # d1 # ds"
    by (cases "shape c"; cases "tl (shape c)") auto
  show ?thesis by (simp add: concat1_def s Let_def)
qed

lemma rezoom_ok:
  assumes pb: "shape pb = [grid_width hyp * grid_height hyp * batch_size hyp, 1, 4]"
    and r: "rnn_len hyp = 1" and ne: "ws \<noteq> []" "hs \<noteq> []"
  shows "\<exists>t. rezoom u hyp pb ef efc ws hs = Inr t
           \<and> shape t = [grid_width hyp * grid_height hyp * batch_size hyp, 1,
                         length ws * length hs * efc]"
proof -
  define n where "n = grid_width hyp * grid_height hyp * batch_size hyp"
  define a where "a = length ws * length hs"
  define pairs where "pairs = List.product ws hs"
  define F where "F = (\<lambda>(w, h). bilinear_select u hyp pb ef efc w h)"
  define G where "G = (\<lambda>(w, h). Tensor [n, 3]
      (concat (map (\<lambda>b. case select_point u hyp b (take 4 (drop (b * 4) (elems pb))) w h of
                            (n, y, x) \<Rightarrow> [n, y, x]) [0..<n])))"
  have FG: "F p = Inr (G p)" for p
    using pb by (cases p) (simp add: F_def G_def bilinear_select_def reshape_rows_def n_def)
  have sa: "select_all F pairs = Inr (map G pairs)"
    by (rule select_all_Inr) (rule FG)
  have pne: "pairs \<noteq> []" using ne by (cases ws; cases hs) (simp_all add: pairs_def)
  have sG: "shape (G p) = [n, 3]" for p by (cases p) (simp add: G_def)
  have "concat0 (map G pairs) = Inr (Tensor (sum_list (map (\<lambda>t. hd (shape t)) (map G pairs))
            # tl (shape (hd (map G pairs)))) (concat (map elems (map G pairs))))"
    using pne by (simp add: concat0_def list_all_iff sG hd_map)
  then obtain ii where c0: "concat0 (map G pairs) = Inr ii" by blast
  have sii: "shape ii = [a * n, 3]"
    using concat0_Inr(1)[OF c0, of n 3] sG by (auto simp: pairs_def a_def)
  obtain ft where ip: "interp u ef ii efc = Inr ft" and sft: "shape ft = [a * n, efc]"
    using sii by (simp add: interp_def)
  have rs: "reshape ft [a, n, 1, efc] = Inr (Tensor [a, n, 1, efc] (elems ft))"
    by (simp add: reshape_def sft)
  obtain T where tr: "transpose_t (Tensor [a, n, 1, efc] (elems ft)) [1, 2, 0, 3] = Inr T"
    by (simp add: transpose_t_def)
  have sT: "shape T = [n, 1, a, efc]" using transpose_t_nth(1)[OF tr] by simp
  have fin: "reshape T [n, 1, a * efc] = Inr (Tensor [n, 1, a * efc] (elems T))"
    by (simp add: reshape_def sT)
  show ?thesis
    unfolding rezoom_def Let_def n_def[symmetric] a_def[symmetric] pairs_def[symmetric]
      F_def[symmetric] r
    by (simp add: sa c0 ip rs tr fin del: One_nat_def)
qed

lemma delta_slot_ok:
  assumes raw: "shape raw = [n, lstm_size hyp]"
    and n: "n = grid_width hyp * grid_height hyp * batch_size hyp"
    and rz: "shape rzf = [n, 1, a * early_feat_channels hyp]"
    and a: "a = length (rezoom_w_coords hyp) * length (rezoom_h_coords hyp)"
    and v1: "vs (Delta_ip1 0) = Some w1"
            "shape w1 = [lstm_size hyp + early_feat_channels hyp * a, 128]"
    and v2: "vs (Delta_ip2 0) = Some w2" "shape w2 = [128, num_classes hyp]"
    and v3: "reregress hyp \<longrightarrow> (\<exists>w3. vs (Delta_ip_boxes 0) = Some w3 \<and> shape w3 = [128, 4])"
  shows "\<exists>c b. delta_slot hyp vs rnd ph raw rzf 0 = Inr (c, b)
           \<and> shape c = [n, 1, num_classes hyp]
           \<and> (if reregress hyp then \<exists>d. b = Some d \<and> shape d = [n, 1, 4] else b = None)"
proof -
  define sf where "sf = Tensor [n, a * early_feat_channels hyp]
      (concat (map (\<lambda>i. take (a * early_feat_channels hyp)
                           (drop ((i * 1 + 0) * (a * early_feat_channels hyp)) (elems rzf))) [0..<n]))"
  have s1: "select_axis1 rzf 0 = Inr sf"
    by (simp add: select_axis1_def rz sf_def Let_def)
  obtain df where c1: "concat1 [raw, tmap (\<lambda>x. x / 1000) sf] = Inr df"
    and sdf: "shape df = [n, lstm_size hyp + early_feat_channels hyp * a]"
    by (simp add: concat1_def raw sf_def Let_def mult.commute)
  have g1: "get_variable vs (Delta_ip1 0) [lstm_size hyp + early_feat_channels hyp * a, 128] = Inr w1"
    by (simp add: get_variable_def v1)
  from matmul_ok[OF sdf v1(2)] obtain p1 where
    p1: "matmul df w1 = Inr p1" "shape p1 = [n, 128]" by blast
  define ip1 where "ip1 = (if ph = Train then dropout (relu p1) 0.5 (rnd (Drop_ip1 0)) else relu p1)"
  have sip1: "shape ip1 = [n, 128]" by (simp add: ip1_def p1)
  have g2: "get_variable vs (Delta_ip2 0) [128, num_classes hyp] = Inr w2"
    by (simp add: get_variable_def v2)
  from matmul_ok[OF sip1 v2(2)] obtain p2 where
    p2: "matmul ip1 w2 = Inr p2" "shape p2 = [n, num_classes hyp]" by blast
  show ?thesis
  proof (cases "reregress hyp")
    case True
    with v3 obtain w3 where w3: "vs (Delta_ip_boxes 0) = Some w3" "shape w3 = [128, 4]" by blast
    from matmul_ok[OF sip1 w3(2)] obtain p3 where
      p3: "matmul ip1 w3 = Inr p3" "shape p3 = [n, 4]" by blast
    have g3: "get_variable vs (Delta_ip_boxes 0) [128, 4] = Inr w3"
      by (simp add: get_variable_def w3)
    show ?thesis
      unfolding delta_slot_def Let_def a[symmetric] n[symmetric]
      using True
      by (simp add: s1 c1 g1 p1 ip1_def[symmetric] g2 p2 p3 g3 reshape_def)
  next
    case False
    show ?thesis
      unfolding delta_slot_def Let_def a[symmetric] n[symmetric]
      using False
      by (simp add: s1 c1 g1 p1 ip1_def[symmetric] g2 p2 reshape_def)
  qed
qed

lemma apply_rezoom_ok:
  assumes r: "rnn_len hyp = 1" and ef: "length (shape ef0) = 4"
    and n: "n = grid_width hyp * grid_height hyp * batch_size hyp"
    and raw: "shape raw = [n, lstm_size hyp]" and pb: "shape pb = [n, 1, 4]"
    and ne: "rezoom_w_coords hyp \<noteq> []" "rezoom_h_coords hyp \<noteq> []"
    and v1: "has_shape vs (Delta_ip1 0)
          [lstm_size hyp + early_feat_channels hyp
             * (length (rezoom_w_coords hyp) * length (rezoom_h_coords hyp)), 128]"
    and v2: "has_shape vs (Delta_ip2 0) [128, num_classes hyp]"
    and v3: "reregress hyp \<longrightarrow> has_shape vs (Delta_ip_boxes 0) [128, 4]"
  shows "\<exists>r. apply_rezoom u hyp vs rnd ph ef0 raw pb pc0 = Inr r"
proof -
  define a where "a = length (rezoom_w_coords hyp) * length (rezoom_h_coords hyp)"
  obtain ef where sl: "slice_last 4 ef0 0 (early_feat_channels hyp) = Inr ef"
    using ef by (simp add: slice_last_def Let_def)
  from rezoom_ok[OF pb[unfolded n] r ne, of u ef "early_feat_channels hyp"]
  obtain rzf0 where rz: "rezoom u hyp pb ef (early_feat_channels hyp) (rezoom_w_coords hyp)
        (rezoom_h_coords hyp) = Inr rzf0"
    and srz0: "shape rzf0 = [n, 1, a * early_feat_channels hyp]"
    unfolding n[symmetric] a_def[symmetric] by blast
  define rzf where "rzf = (if ph = Train then dropout rzf0 0.5 (rnd Drop_rezoom) else rzf0)"
  have srz: "shape rzf = [n, 1, a * early_feat_channels hyp]" by (simp add: rzf_def srz0)
  from has_shape_get[OF v1] obtain w1 where w1: "vs (Delta_ip1 0) = Some w1"
      "shape w1 = [lstm_size hyp + early_feat_channels hyp * a, 128]"
    unfolding a_def by blast
  from has_shape_get[OF v2] obtain w2 where w2: "vs (Delta_ip2 0) = Some w2"
      "shape w2 = [128, num_classes hyp]" by blast
  have w3: "reregress hyp \<longrightarrow> (\<exists>w3. vs (Delta_ip_boxes 0) = Some w3 \<and> shape w3 = [128, 4])"
    using v3 has_shape_get by blast
  from delta_slot_ok[OF raw n srz a_def w1 w2 w3, of rnd ph]
  obtain c b where ds: "delta_slot hyp vs rnd ph raw rzf 0 = Inr (c, b)"
    and sc: "shape c = [n, 1, num_classes hyp]"
    and sb: "if reregress hyp then \<exists>d. b = Some d \<and> shape d = [n, 1, 4] else b = None"
    by blast
  have one: "[0..<1] = [0::nat]" by simp
  have dss: "delta_slots (delta_slot hyp vs rnd ph raw rzf) [0..<1]
               = Inr ([c], case b of None \<Rightarrow> [] | Some d \<Rightarrow> [d])"
    unfolding one by (simp add: ds split: option.splits)
  from concat1_single[of c] sc obtain cc where
    cc: "concat1 [c] = Inr cc" "shape cc = [n, 1, num_classes hyp]" by auto
  let ?l = "Tensor [n, num_classes hyp] (elems cc)"
  from softmax_ok[of ?l] obtain sm where
    sm: "softmax ?l = Inr sm" "shape sm = [n, num_classes hyp]" by auto
  have bd: "\<exists>x. (if reregress hyp then bnd (concat1 (case b of None \<Rightarrow> [] | Some d \<Rightarrow> [d]))
                       (\<lambda>d. Inr (Deltas d)) else Inr EmptyList) = Inr x"
  proof (cases "reregress hyp")
    case True
    with sb obtain d where d: "b = Some d" "shape d = [n, 1, 4]" by auto
    from concat1_single[of d] d(2) obtain dd where "concat1 [d] = Inr dd" by auto
    then show ?thesis using True d by simp
  next
    case False
    then show ?thesis by simp
  qed
  then obtain x where x: "(if reregress hyp then bnd (concat1 (case b of None \<Rightarrow> [] | Some d \<Rightarrow> [d]))
                       (\<lambda>d. Inr (Deltas d)) else Inr EmptyList) = Inr x" by blast
  show ?thesis
    unfolding apply_rezoom_def Let_def n[symmetric]
    by (simp add: sl rz rzf_def[symmetric] dss cc reshape_def sm x r del: One_nat_def)
qed

section \<open>The shapes of the decoder's output\<close>

lemma build_yolo_fc_layer_ok:
  assumes "prod_list (shape c)
             = batch_size hyp * (grid_width hyp * grid_height hyp) * cnn_channels hyp"
    and "vs Ip = Some w" and "shape w = [cnn_channels hyp, lstm_size hyp]"
  shows "\<exists>t. build_yolo_fc_layer hyp vs c = Inr t
            \<and> shape t = [batch_size hyp * (grid_width hyp * grid_height hyp), lstm_size hyp]"
  using assms
  by (simp add: build_yolo_fc_layer_def Let_def reshape_def get_variable_def matmul_def)

lemma decoder_Inr_shapes:
  assumes "decoder u hyp vs rnd logits ph = Inr (pb, pl, pc, cd, bd)"
  shows "shape pb = [grid_width hyp * grid_height hyp * batch_size hyp, 1, 4]
       \<and> shape pl = [grid_width hyp * grid_height hyp * batch_size hyp, num_classes hyp]
       \<and> shape pc = [grid_width hyp * grid_height hyp * batch_size hyp, rnn_len hyp,
                      num_classes hyp]
       \<and> softmax pl = Inr (Tensor (shape pl) (elems pc))
       \<and> (rnn_len hyp = 1
            \<or> grid_width hyp * grid_height hyp * batch_size hyp * num_classes hyp = 0)"
proof -
  define n where "n = grid_width hyp * grid_height hyp * batch_size hyp"
  obtain a b where l: "logits = (a, b)" by (cases logits)
  from assms obtain xd xe where
    pb: "shape pb = [n, 1, 4]" and pl: "pl = Tensor [n, num_classes hyp] (elems xd)"
    and sm: "softmax pl = Inr xe"
    and e2: "n * (rnn_len hyp * num_classes hyp) = prod_list (shape xe)"
    and pc: "pc = Tensor [n, rnn_len hyp, num_classes hyp] (elems xe)"
    unfolding l decoder_def Let_def n_def[symmetric]
    by (auto simp: bnd_Inr_iff reshape_Inr_iff split: prod.splits)
  have sxe: "shape xe = [n, num_classes hyp]"
    using softmax_Inr_shape[OF sm] pl by simp
  with e2 have "n * (rnn_len hyp * num_classes hyp) = n * num_classes hyp" by simp
  then have "rnn_len hyp = 1 \<or> n * num_classes hyp = 0"
    by (cases "n * num_classes hyp = 0") auto
  moreover have "softmax pl = Inr (Tensor (shape pl) (elems pc))"
    using sm sxe pl pc by (cases xe) simp
  ultimately show ?thesis using pb pl pc unfolding n_def by simp
qed

lemma decoder_returns:
  assumes r: "rnn_len hyp = 1"
    and c: "prod_list (shape cnn_output)
              = batch_size hyp * grid_width hyp * grid_height hyp * cnn_channels hyp"
    and vd: "variables_declared hyp vs"
    and rz: "use_rezoom hyp \<longrightarrow> length (shape early_feat) = 4
               \<and> rezoom_w_coords hyp \<noteq> [] \<and> rezoom_h_coords hyp \<noteq> []"
  shows "\<exists>r. decoder u hyp vs rnd (cnn_output, early_feat) ph = Inr r"
proof -
  define n where "n = batch_size hyp * (grid_width hyp * grid_height hyp)"
  have n': "grid_width hyp * grid_height hyp * batch_size hyp = n"
           "batch_size hyp * grid_width hyp * grid_height hyp = n"
    by (simp_all add: n_def mult_ac)
  from vd obtain w wb wc where
    ip: "vs Ip = Some w" "shape w = [cnn_channels hyp, lstm_size hyp]" and
    bx: "vs Box_ip = Some wb" "shape wb = [lstm_size hyp, 4]" and
    cf: "vs Conf_ip = Some wc" "shape wc = [lstm_size hyp, num_classes hyp]"
    unfolding variables_declared_def by (blast dest: has_shape_get)
  let ?c = "Tensor [n, cnn_channels hyp] (elems cnn_output)"
  have "\<exists>t. build_yolo_fc_layer hyp vs ?c = Inr t \<and> shape t = [n, lstm_size hyp]"
    unfolding n_def by (rule build_yolo_fc_layer_ok[where w = w]) (simp_all add: ip)
  then obtain raw0 where
    raw0: "build_yolo_fc_layer hyp vs ?c = Inr raw0" "shape raw0 = [n, lstm_size hyp]"
    by blast
  define raw where "raw = (if ph = Train then dropout raw0 0.5 (rnd Drop_raw) else raw0)"
  have sraw: "shape raw = [n, lstm_size hyp]" by (simp add: raw_def raw0)
  from matmul_ok[OF sraw bx(2)] obtain pbx where
    pbx: "matmul raw wb = Inr pbx" "shape pbx = [n, 4]" by blast
  from matmul_ok[OF sraw cf(2)] obtain pcf where
    pcf: "matmul raw wc = Inr pcf" "shape pcf = [n, num_classes hyp]" by blast
  from softmax_ok[of "Tensor [n, num_classes hyp] (elems pcf)"] obtain sm where
    sm: "softmax (Tensor [n, num_classes hyp] (elems pcf)) = Inr sm"
        "shape sm = [n, num_classes hyp]"
    by auto
  let ?pb = "Tensor [n, 1, 4] (map (\<lambda>x. x * 50) (elems pbx))"
  let ?pc = "Tensor [n, 1, num_classes hyp] (elems sm)"
  show ?thesis
  proof (cases "use_rezoom hyp")
    case True
    with vd have v: "has_shape vs (Delta_ip1 0)
          [lstm_size hyp + early_feat_channels hyp
             * (length (rezoom_w_coords hyp) * length (rezoom_h_coords hyp)), 128]"
        "has_shape vs (Delta_ip2 0) [128, num_classes hyp]"
        "reregress hyp \<longrightarrow> has_shape vs (Delta_ip_boxes 0) [128, 4]"
      unfolding variables_declared_def by simp_all
    have "\<exists>r. apply_rezoom u hyp vs rnd ph early_feat raw ?pb ?pc = Inr r"
      by (rule apply_rezoom_ok[where n = n])
         (use True rz r v sraw in \<open>simp_all add: n'\<close>)
    then obtain cd d where
      ar: "apply_rezoom u hyp vs rnd ph early_feat raw ?pb ?pc = Inr (cd, d)"
      by force
    show ?thesis
      unfolding decoder_def Let_def n' prod.case
      using c True
      by (simp add: reshape_def n' raw0 raw_def[symmetric] get_variable_def bx cf ip pbx pcf sm
            r ar del: One_nat_def)
  next
    case False
    show ?thesis
      unfolding decoder_def Let_def n' prod.case
      using c False
      by (simp add: reshape_def n' raw0 raw_def[symmetric] get_variable_def bx cf ip pbx pcf sm
            r del: One_nat_def)
  qed
qed

text \<open>
  C3.  Whenever the decoder returns, \<open>pred_boxes\<close> has the shape (outer size, 1, 4) and
  \<open>pred_confidences\<close> the shape (outer size, \<open>rnn_len\<close>, \<open>num_classes\<close>), and then
  \<open>rnn_len\<close> is 1 unless the grid has no cell or there is no class.  With \<open>rnn_len = 1\<close>,
  a feature map of outer size times \<open>cnn_channels\<close> entries, the variables at their
  declared shapes and, under rezoom, a rank-4 early feature map and offsets in both
  directions, the decoder does return.
\<close>

theorem decoder_output_shapes:
  "(decoder u hyp vs rnd (cnn_output, early_feat) ph = Inr (pb, pl, pc, cd, bd) \<longrightarrow>
      shape pb = [grid_width hyp * grid_height hyp * batch_size hyp, 1, 4]
    \<and> shape pc = [grid_width hyp * grid_height hyp * batch_size hyp, rnn_len hyp,
                   num_classes hyp]
    \<and> (rnn_len hyp = 1
         \<or> grid_width hyp * grid_height hyp * batch_size hyp * num_classes hyp = 0))
   \<and> (rnn_len hyp = 1
       \<and> prod_list (shape cnn_output)
           = batch_size hyp * grid_width hyp * grid_height hyp * cnn_channels hyp
       \<and> variables_declared hyp vs
       \<and> (use_rezoom hyp \<longrightarrow> length (shape early_feat) = 4
             \<and> rezoom_w_coords hyp \<noteq> [] \<and> rezoom_h_coords hyp \<noteq> [])
       \<longrightarrow> (\<exists>r. decoder u hyp vs rnd (cnn_output, early_feat) ph = Inr r))"
proof (rule conjI; rule impI)
  assume d: "decoder u hyp vs rnd (cnn_output, early_feat) ph = Inr (pb, pl, pc, cd, bd)"
  from decoder_Inr_shapes[OF d]
  show "shape pb = [grid_width hyp * grid_height hyp * batch_size hyp, 1, 4]
      \<and> shape pc = [grid_width hyp * grid_height hyp * batch_size hyp, rnn_len hyp,
                     num_classes hyp]
      \<and> (rnn_len hyp = 1
           \<or> grid_width hyp * grid_height hyp * batch_size hyp * num_classes hyp = 0)"
    by simp
next
  assume "rnn_len hyp = 1
       \<and> prod_list (shape cnn_output)
           = batch_size hyp * grid_width hyp * grid_height hyp * cnn_channels hyp
       \<and> variables_declared hyp vs
       \<and> (use_rezoom hyp \<longrightarrow> length (shape early_feat) = 4
             \<and> rezoom_w_coords hyp \<noteq> [] \<and> rezoom_h_coords hyp \<noteq> [])"
  then show "\<exists>r. decoder u hyp vs rnd (cnn_output, early_feat) ph = Inr r"
    by (intro decoder_returns) simp_all
qed

theorem decoder_output_shapes_witness:
  "\<exists>pb pl pc cd bd.
     decoder example_utils (example_hyp\<lparr>use_rezoom := True, reregress := True\<rparr>)
       example_variables example_draws example_logits Train
       = Inr (pb, pl, pc, cd, bd)
     \<and> shape pb = [2, 1, 4] \<and> shape pc = [2, 1, 2]"
proof -
  let ?h = "example_hyp\<lparr>use_rezoom := True, reregress := True\<rparr>"
  let ?c = "Tensor [1, 1, 2, 1] [100, 200] :: real tensor"
  let ?e = "Tensor [1, 2, 4, 1] [1, 2, 3, 4, 5, 6, 7, 8] :: real tensor"
  have "\<exists>r. decoder example_utils ?h example_variables example_draws (?c, ?e) Train = Inr r"
    using decoder_output_shapes[of example_utils ?h example_variables example_draws ?c ?e Train]
    by (simp add: example_hyp_def example_variables_def variables_declared_def has_shape_def)
  then obtain pb pl pc cd bd where
    d: "decoder example_utils ?h example_variables example_draws (?c, ?e) Train
          = Inr (pb, pl, pc, cd, bd)"
    by (metis prod_cases5)
  from decoder_output_shapes[of example_utils ?h example_variables example_draws ?c ?e Train
        pb pl pc cd bd] d
  have "shape pb = [2, 1, 4] \<and> shape pc = [2, 1, 2]"
    by (simp add: example_hyp_def)
  with d show ?thesis unfolding example_logits_def by blast
qed

text \<open>The claim as stated, for any \<open>rnn_len \<ge> 1\<close>, fails at \<open>rnn_len = 2\<close>: the softmax of
  the logits has outer size times \<open>num_classes\<close> entries and cannot be reshaped to
  (outer size, 2, \<open>num_classes\<close>).\<close>

theorem decoder_two_slots_counterexample:
  "decoder example_utils (example_hyp\<lparr>rnn_len := 2\<rparr>) example_variables example_draws
     example_logits Val = Inl ShapeError"
  by (simp add: decoder_def example_hyp_def example_variables_def example_logits_def
      reshape_def build_yolo_fc_layer_def get_variable_def matmul_def softmax_def)

section \<open>The order of the rezoom features\<close>

text \<open>
  C8.  When \<^verbatim>\<open>_rezoom\<close> returns, its result has the shape (outer size, \<open>rnn_len\<close>, number
  of offset pairs times channels), and for cell \<open>i\<close>, slot \<open>k\<close>, the \<open>o\<close>-th offset pair
  (width offsets outermost, as enumerated) and channel \<open>c\<close>, entry
  \<open>[i, k, o * channels + c]\<close> of the result is channel \<open>c\<close> of the sample that
  \<^verbatim>\<open>interp\<close> takes at the index \<^verbatim>\<open>bilinear_select\<close> gives box \<open>i * rnn_len + k\<close> for that
  offset pair: row \<open>(i, k)\<close> is the concatenation, over the offset pairs in order, of
  the samples of that box.
\<close>

theorem rezoom_preserves_order:
  assumes rz: "rezoom u hyp pb ef efc ws hs = Inr out"
    and i: "i < grid_width hyp * grid_height hyp * batch_size hyp"
    and k: "k < rnn_len hyp" and o: "o' < length ws * length hs" and c: "c < efc"
  shows "shape out = [grid_width hyp * grid_height hyp * batch_size hyp, rnn_len hyp,
                      length ws * length hs * efc]
       \<and> (\<exists>idx smp.
             bilinear_select u hyp pb ef efc (fst (List.product ws hs ! o'))
               (snd (List.product ws hs ! o')) = Inr idx
           \<and> interp u ef idx efc = Inr smp
           \<and> entry out [i, k, o' * efc + c] = entry smp [i * rnn_len hyp + k, c])"
proof -
  define n where "n = grid_width hyp * grid_height hyp * batch_size hyp"
  define r where "r = rnn_len hyp"
  define a where "a = length ws * length hs"
  define m where "m = prod_list (shape pb) div 4"
  define pairs where "pairs = List.product ws hs"
  define F where "F = (\<lambda>(w, h). bilinear_select u hyp pb ef efc w h)"
  have la: "length pairs = a" by (simp add: pairs_def a_def)
  from rz obtain ts ii ft T where
    sa: "select_all F pairs = Inr ts" and c0: "concat0 ts = Inr ii"
    and ip: "interp u ef ii efc = Inr ft"
    and rs: "a * (n * (r * efc)) = prod_list (shape ft)"
    and tr: "transpose_t (Tensor [a, n, r, efc] (elems ft)) [1, 2, 0, 3] = Inr T"
    and fin: "reshape T [n, r, a * efc] = Inr out"
    unfolding rezoom_def Let_def n_def[symmetric] r_def[symmetric] a_def[symmetric]
      pairs_def[symmetric] F_def[symmetric]
    by (auto simp: bnd_Inr_iff reshape_Inr_iff)
  from select_all_Inr_D[OF sa] la have lts: "length ts = a"
    and sel: "\<And>q. q < a \<Longrightarrow> F (pairs ! q) = Inr (ts ! q)" by auto
  have ts_shape: "shape t = [m, 3]" and ts_len: "length (elems t) = m * 3" if "t \<in> set ts" for t
  proof -
    from that obtain q where q: "q < a" "t = ts ! q" using lts by (auto simp: in_set_conv_nth)
    from sel[OF q(1)] have "bilinear_select u hyp pb ef efc (fst (pairs ! q)) (snd (pairs ! q)) = Inr t"
      by (simp add: F_def q(2) case_prod_unfold)
    from bilinear_select_Inr[OF this] show "shape t = [m, 3]" "length (elems t) = m * 3"
      by (simp_all add: m_def)
  qed
  from concat0_Inr[OF c0 ts_shape] have sii: "shape ii = [a * m, 3]"
    and eii: "elems ii = concat (map elems ts)" by (simp_all add: lts)
  have sft: "shape ft = [a * m, efc]"
    using ip sii by (auto simp: interp_def split: if_splits)
  have pos: "0 < a" "0 < efc" using o c unfolding a_def by linarith+
  have m: "m = n * r"
  proof -
    from rs sft have "a * (n * (r * efc)) = a * m * efc" by simp
    then have "(a * efc) * (n * r) = (a * efc) * m" by (simp add: mult_ac)
    then show ?thesis using pos by simp
  qed
  define b where "b = i * r + k"
  have b: "b < m"
  proof -
    have "i * r + k < i * r + r" using k by (simp add: r_def)
    also have "\<dots> = Suc i * r" by simp
    also have "\<dots> \<le> n * r" using i by (intro mult_le_mono1) (simp add: n_def)
    finally show ?thesis by (simp add: b_def m)
  qed
  have ob: "o' * m + b < a * m"
  proof -
    have "o' * m + b < o' * m + m" using b by simp
    also have "\<dots> = Suc o' * m" by simp
    also have "\<dots> \<le> a * m" using o by (intro mult_le_mono1) (simp add: a_def)
    finally show ?thesis .
  qed
  have o_a: "o' < a" using o by (simp add: a_def)
  let ?idx = "ts ! o'"
  have bs: "bilinear_select u hyp pb ef efc (fst (List.product ws hs ! o'))
              (snd (List.product ws hs ! o')) = Inr ?idx"
    using sel[OF o_a] by (simp add: F_def pairs_def case_prod_unfold)
  have sidx: "shape ?idx = [m, 3]" using ts_shape[of ?idx] o_a lts by simp
  obtain smp where smp: "interp u ef ?idx efc = Inr smp"
    using sidx by (simp add: interp_def)
  from interp_entry[OF smp sidx b c] have
    e_smp: "entry smp [b, c] = sample u ef (take 3 (drop (b * 3) (elems ?idx))) c"
    by (simp add: entry_def)
  from interp_entry[OF ip sii ob c] have
    "elems ft ! ((o' * m + b) * efc + c)
       = sample u ef (take 3 (drop ((o' * m + b) * 3) (concat (map elems ts)))) c"
    by (simp add: eii)
  also have "take 3 (drop ((o' * m + b) * 3) (concat (map elems ts)))
               = take 3 (drop (b * 3) (elems ?idx))"
  proof -
    have "take 3 (drop (o' * (m * 3) + b * 3) (concat (map elems ts)))
            = take 3 (drop (b * 3) (elems (ts ! o')))"
      by (rule take_drop_concat_block) (use ts_len o_a lts b in simp_all)
    then show ?thesis by (simp add: algebra_simps)
  qed
  finally have e_ft: "elems ft ! ((o' * m + b) * efc + c) = entry smp [b, c]"
    using e_smp by simp
  have i': "i < n" and k': "k < r" using i k by (simp_all add: n_def r_def)
  from transpose_1203_entry[OF tr i' k' o_a c] have
    sT: "shape T = [n, r, a, efc]" and
    eT: "elems T ! (((i * r + k) * a + o') * efc + c)
           = elems ft ! (((o' * n + i) * r + k) * efc + c)" by simp_all
  from fin sT have out: "out = Tensor [n, r, a * efc] (elems T)"
    by (simp add: reshape_Inr_iff)
  have "entry out [i, k, o' * efc + c] = elems T ! (((i * r + k) * a + o') * efc + c)"
    by (simp add: out entry_def algebra_simps)
  also have "\<dots> = elems ft ! ((o' * m + b) * efc + c)"
    unfolding eT by (simp add: m b_def algebra_simps)
  finally have "entry out [i, k, o' * efc + c] = entry smp [i * rnn_len hyp + k, c]"
    using e_ft by (simp add: b_def r_def)
  moreover have "shape out = [n, r, a * efc]" by (simp add: out)
  ultimately show ?thesis
    using bs smp unfolding n_def r_def a_def by blast
qed

text \<open>With the single offset pair (0, 0), the row of a cell and slot is the sample at
  the index of its box for offsets (0, 0).\<close>

theorem rezoom_preserves_order_witness:
  "\<exists>out idx smp.
     rezoom example_utils example_hyp example_pred_boxes example_early_feat 1 [0] [0] = Inr out
   \<and> shape out = [2, 1, 1]
   \<and> bilinear_select example_utils example_hyp example_pred_boxes example_early_feat 1 0 0
       = Inr idx
   \<and> interp example_utils example_early_feat idx 1 = Inr smp
   \<and> entry out [1, 0, 0] = entry smp [1, 0]"
proof -
  have rz: "rezoom example_utils example_hyp example_pred_boxes example_early_feat 1 [0] [0]
              = Inr (Tensor [2, 1, 1] [30, 70])"
    by (simp add: rezoom_def example_hyp_def example_utils_def example_pred_boxes_def
        example_early_feat_def bilinear_select_def reshape_rows_def concat0_def interp_def
        rows_of_def reshape_def transpose_t_def upt_rec Let_def)
  from rezoom_preserves_order[OF rz, of 1 0 0 0] rz show ?thesis
    by (auto simp: example_hyp_def)
qed

section \<open>The evaluation is deterministic\<close>

lemma decoder_val_draws:
  "decoder u hyp vs rnd logits Val = decoder u hyp vs rnd' logits Val"
proof -
  have ds: "delta_slot hyp vs rnd Val = delta_slot hyp vs rnd' Val"
    by (intro ext) (simp add: delta_slot_def)
  have ar: "apply_rezoom u hyp vs rnd Val = apply_rezoom u hyp vs rnd' Val"
    by (intro ext) (simp add: apply_rezoom_def ds)
  show ?thesis by (cases logits) (simp add: decoder_def Let_def ar cong: if_cong)
qed

lemma evaluation_frame:
  "map_sum id fst (evaluation hyp images labels decoded losses step)
     = map_sum id fst (evaluation hyp images' labels decoded losses' step')"
  by (auto simp: evaluation_def Let_def bnd_def split: sum.splits prod.splits)

text \<open>
  C10.  The accuracies that \<^verbatim>\<open>evaluation\<close> returns are a function of the hyperparameters,
  the labels and the decoded predictions alone: the images, the losses and the step do
  not enter, and the moving averages are only an argument of the returned update.  The
  predictions of the \<open>val\<close> phase do not depend on the random draws of dropout.
\<close>

theorem evaluation_deterministic:
  "map_sum id fst (evaluation hyp images labels decoded losses step)
     = map_sum id fst (evaluation hyp images' labels decoded losses' step')
   \<and> decoder u hyp vs rnd logits Val = decoder u hyp vs rnd' logits Val"
  using evaluation_frame[of hyp images labels decoded losses step images' losses' step']
    decoder_val_draws[of u hyp vs rnd logits rnd']
  by simp

section \<open>The confidences do not depend on the rezoom\<close>

lemma build_yolo_fc_layer_cong:
  "build_yolo_fc_layer (hyp\<lparr>use_rezoom := z, reregress := g\<rparr>) vs c = build_yolo_fc_layer hyp vs c"
  by (simp add: build_yolo_fc_layer_def)

lemma decoder_without_rezoom:
  assumes "decoder u hyp vs rnd logits ph = Inr (pb, pl, pc, cd, bd)"
  shows "decoder u (hyp\<lparr>use_rezoom := False, reregress := g\<rparr>) vs rnd logits ph
           = Inr (pb, pl, pc, None, NoDeltas)"
proof -
  obtain a b where l: "logits = (a, b)" by (cases logits)
  show ?thesis
    using assms unfolding l decoder_def Let_def prod.case
    by (cases ph; cases "use_rezoom hyp")
       (auto simp: bnd_Inr_iff build_yolo_fc_layer_cong split: prod.splits)
qed

text \<open>
  C9.  The \<open>pred_confidences\<close> that the decoder returns are the softmax of its
  \<open>pred_logits\<close>, reshaped to (outer size, \<open>rnn_len\<close>, \<open>num_classes\<close>), and the decoder
  returns the same boxes, logits and confidences under any other setting of
  \<open>use_rezoom\<close> and \<open>reregress\<close> under which it returns.
\<close>

theorem decoder_confidences_base:
  assumes "decoder u hyp vs rnd logits ph = Inr (pb, pl, pc, cd, bd)"
    and "decoder u (hyp\<lparr>use_rezoom := z, reregress := g\<rparr>) vs rnd logits ph
           = Inr (pb', pl', pc', cd', bd')"
  shows "bnd (softmax pl)
           (\<lambda>s. reshape s [grid_width hyp * grid_height hyp * batch_size hyp, rnn_len hyp,
                            num_classes hyp]) = Inr pc
       \<and> pc' = pc \<and> pl' = pl \<and> pb' = pb"
proof -
  from decoder_without_rezoom[OF assms(1), of False]
       decoder_without_rezoom[OF assms(2), of False]
  have same: "pc' = pc \<and> pl' = pl \<and> pb' = pb" by simp
  from decoder_Inr_shapes[OF assms(1)] have
    pl: "shape pl = [grid_width hyp * grid_height hyp * batch_size hyp, num_classes hyp]" and
    pc: "shape pc = [grid_width hyp * grid_height hyp * batch_size hyp, rnn_len hyp,
                     num_classes hyp]" and
    sm: "softmax pl = Inr (Tensor (shape pl) (elems pc))" and
    one: "rnn_len hyp = 1
            \<or> grid_width hyp * grid_height hyp * batch_size hyp * num_classes hyp = 0"
    by simp_all
  have "reshape (Tensor (shape pl) (elems pc))
          [grid_width hyp * grid_height hyp * batch_size hyp, rnn_len hyp, num_classes hyp]
        = Inr pc"
    using one pc by (cases pc) (auto simp: reshape_def pl)
  with sm same show ?thesis by simp
qed

theorem decoder_confidences_base_witness:
  "\<exists>pb pl pc cd bd pb' pl' pc' cd' bd'.
     decoder example_utils (example_hyp\<lparr>use_rezoom := True, reregress := True\<rparr>)
       example_variables example_draws example_logits Train = Inr (pb, pl, pc, cd, bd)
   \<and> decoder example_utils (example_hyp\<lparr>use_rezoom := False, reregress := False\<rparr>)
       example_variables example_draws example_logits Train = Inr (pb', pl', pc', cd', bd')
   \<and> bnd (softmax pl) (\<lambda>s. reshape s [2, 1, 2]) = Inr pc \<and> pc' = pc"
proof -
  let ?h = "example_hyp\<lparr>use_rezoom := True, reregress := True\<rparr>"
  have "\<exists>r. decoder example_utils ?h example_variables example_draws
               (Tensor [1, 1, 2, 1] [100, 200], Tensor [1, 2, 4, 1] [1, 2, 3, 4, 5, 6, 7, 8])
               Train = Inr r"
    by (rule decoder_returns)
       (simp_all add: example_hyp_def example_variables_def variables_declared_def
          has_shape_def)
  then obtain pb pl pc cd bd where
    d: "decoder example_utils ?h example_variables example_draws example_logits Train
          = Inr (pb, pl, pc, cd, bd)"
    unfolding example_logits_def by (metis prod_cases5)
  from decoder_without_rezoom[OF d, of False] have
    d': "decoder example_utils (?h\<lparr>use_rezoom := False, reregress := False\<rparr>)
           example_variables example_draws example_logits Train
         = Inr (pb, pl, pc, None, NoDeltas)" .
  from decoder_confidences_base[OF d d'] d d' show ?thesis
    by (simp add: example_hyp_def)
qed

section \<open>The loss\<close>

lemma sum_list_upt: "sum_list (map f [0..<n]) = (\<Sum>j<n. f j)"
  by (simp add: interv_sum_list_conv_sum_set_nat atLeast0LessThan)

lemma exp_le_sum_list: "x \<in> set xs \<Longrightarrow> exp x \<le> (\<Sum>y\<leftarrow>xs. exp (y::real))"
proof (induction xs)
  case Nil
  then show ?case by simp
next
  case (Cons a xs)
  have nn: "0 \<le> (\<Sum>y\<leftarrow>xs. exp y)" by (rule sum_list_nonneg) auto
  show ?case
  proof (cases "x = a")
    case True
    then show ?thesis using nn by simp
  next
    case False
    with Cons have "exp x \<le> (\<Sum>y\<leftarrow>xs. exp y)" by simp
    moreover have "0 \<le> exp a" by simp
    ultimately have "exp x \<le> exp a + (\<Sum>y\<leftarrow>xs. exp y)" by linarith
    then show ?thesis by simp
  qed
qed

lemma xent_row_nonneg:
  assumes "nat l < length xs"
  shows "0 \<le> xent_row xs l"
proof -
  have "exp (xs ! nat l) \<le> (\<Sum>y\<leftarrow>xs. exp y)"
    using assms by (intro exp_le_sum_list) simp
  then have "ln (exp (xs ! nat l)) \<le> ln (\<Sum>y\<leftarrow>xs. exp y)"
    by (subst ln_le_cancel_iff) (auto intro: less_le_trans[OF exp_gt_zero])
  then show ?thesis by (simp add: xent_row_def)
qed

lemma ssce_Inr:
  assumes "sparse_softmax_cross_entropy_with_logits (Tensor [m, c] ls) (Tensor [m] ts) = Inr xe"
  shows "xe = Tensor [m] (map (\<lambda>i. xent_row (take c (drop (i * c) ls)) (ts ! i)) [0..<m])"
    and "list_all (\<lambda>l. 0 \<le> l \<and> l < int c) ts"
  using assms by (auto simp: sparse_softmax_cross_entropy_with_logits_def split: if_splits)

lemma loss_confidences:
  assumes l: "loss u hypes (pb, pl, pc, cd, bd) (flags, confs, boxes) ph losses
                = Inr ((total_loss, conf, box), ls)"
    and m: "loss_matching u hypes pb flags boxes = Inr (classes, pt, pm)"
  shows "\<exists>xe h0.
       prod_list (shape classes) = grid_width hypes * grid_height hypes * batch_size hypes * rnn_len hypes
     \<and> sparse_softmax_cross_entropy_with_logits
          (Tensor [grid_width hypes * grid_height hypes * batch_size hypes * rnn_len hypes,
                   num_classes hypes] (elems pl))
          (Tensor [grid_width hypes * grid_height hypes * batch_size hypes * rnn_len hypes]
                  (map (\<lambda>c. of_bool_int (0 < c)) (elems classes))) = Inr xe
     \<and> index (head_weights hypes) 0 = Inr h0
     \<and> conf = reduce_sum xe
                / real (grid_width hypes * grid_height hypes * batch_size hypes) * h0"
  using l unfolding loss_def Let_def prod.case
  by (auto simp: m bnd_Inr_iff reshape_Inr_iff register_def split: if_splits)

lemmas loss_eval_defs = loss_def loss_matching_def example_decoded_def example_labels_def
  example_pred_boxes_def example_hyp_def reshape_def of_bool_real_def
  sparse_softmax_cross_entropy_with_logits_def index_def binop_def broadcast_shape_def
  bidx_def register_def reduce_sum_def of_bool_int_def upt_rec Let_def

text \<open>
  C7.  With \<^verbatim>\<open>use_lstm\<close> false, the classes of the slots are the flags reshaped to (outer
  size, 1), the matched boxes are the ground-truth boxes reshaped to (outer size, 1, 4),
  and the mask has the shape (outer size, 1, 1) and is 1 at a cell exactly when the class
  there is positive, 0 otherwise.
\<close>

theorem single_slot_matching:
  assumes "\<not> use_lstm hypes" and "wf flags"
    and "loss_matching u hypes pred_boxes flags boxes = Inr (classes, perm_truth, pred_mask)"
  shows "reshape flags [grid_width hypes * grid_height hypes * batch_size hypes, 1] = Inr classes
       \<and> reshape boxes [grid_width hypes * grid_height hypes * batch_size hypes, 1, 4]
            = Inr perm_truth
       \<and> shape pred_mask = [grid_width hypes * grid_height hypes * batch_size hypes, 1, 1]
       \<and> (\<forall>i < grid_width hypes * grid_height hypes * batch_size hypes.
             entry pred_mask [i, 0, 0] = (if 0 < entry classes [i, 0] then 1 else 0))"
proof -
  define n where "n = grid_width hypes * grid_height hypes * batch_size hypes"
  from assms(1,3) have
    b: "n * (rnn_len hypes * 4) = prod_list (shape boxes)" and
    f: "n = prod_list (shape flags)" and
    c: "classes = Tensor [n, 1] (elems flags)" and
    t: "n * 4 = n * (rnn_len hypes * 4)" "perm_truth = Tensor [n, 1, 4] (elems boxes)" and
    m: "pred_mask = Tensor [n, 1, 1] (map (\<lambda>c. of_bool_real (0 < c)) (elems flags))"
    unfolding loss_matching_def Let_def n_def[symmetric]
    by (auto simp: bnd_Inr_iff reshape_Inr_iff)
  have len: "length (elems flags) = n" using assms(2) f by (simp add: wf_def)
  show ?thesis
    unfolding n_def[symmetric]
    using b f c t m len by (auto simp: reshape_def entry_def of_bool_real_def)
qed

theorem single_slot_matching_witness:
  "\<exists>classes perm_truth pred_mask.
     loss_matching example_utils example_hyp example_pred_boxes (fst example_labels)
       (snd (snd example_labels)) = Inr (classes, perm_truth, pred_mask)
   \<and> classes = Tensor [2, 1] [1, 0]
   \<and> perm_truth = Tensor [2, 1, 4] [11, 22, 2, 4, 1, 2, 3, 4]
   \<and> entry pred_mask [0, 0, 0] = 1 \<and> entry pred_mask [1, 0, 0] = 0"
proof -
  let ?f = "Tensor [1, 2, 1] [1, 0] :: int tensor"
  let ?b = "Tensor [1, 2, 1, 4] [11, 22, 2, 4, 1, 2, 3, 4] :: real tensor"
  have m: "loss_matching example_utils example_hyp example_pred_boxes ?f ?b
     = Inr (Tensor [2, 1] [1, 0], Tensor [2, 1, 4] [11, 22, 2, 4, 1, 2, 3, 4],
            Tensor [2, 1, 1] [1, 0])"
    by (simp add: loss_matching_def example_hyp_def reshape_def of_bool_real_def)
  have h: "\<not> use_lstm example_hyp" "wf ?f" by (simp_all add: example_hyp_def wf_def)
  from single_slot_matching[OF h m] m show ?thesis
    by (simp add: example_labels_def example_hyp_def entry_def)
qed

text \<open>
  C6.  The confidence loss is the sum, over the outer size times \<open>rnn_len\<close> slots, of
  the cross-entropy of the slot's logits against the label 1 when the matched class of
  the slot is positive and 0 otherwise, divided by the outer size and multiplied by
  \<open>head_weights[0]\<close>.
\<close>

theorem classification_loss:
  assumes l: "loss u hypes (pb, pl, pc, cd, bd) (flags, confs, boxes) ph losses
                = Inr ((total_loss, conf, box), ls)"
    and m: "loss_matching u hypes pb flags boxes = Inr (classes, pt, pm)"
    and w: "wf classes"
  shows "conf = (\<Sum>j < grid_width hypes * grid_height hypes * batch_size hypes * rnn_len hypes.
                   xent_row (take (num_classes hypes) (drop (j * num_classes hypes) (elems pl)))
                            (if 0 < elems classes ! j then 1 else 0))
                / real (grid_width hypes * grid_height hypes * batch_size hypes)
                * head_weights hypes ! 0"
proof -
  define N where "N = grid_width hypes * grid_height hypes * batch_size hypes * rnn_len hypes"
  from loss_confidences[OF l m] obtain xe h0 where
    pc: "prod_list (shape classes) = N"
    and x: "sparse_softmax_cross_entropy_with_logits
          (Tensor [N, num_classes hypes] (elems pl))
          (Tensor [N] (map (\<lambda>c. of_bool_int (0 < c)) (elems classes))) = Inr xe"
    and h: "index (head_weights hypes) 0 = Inr h0"
    and c: "conf = reduce_sum xe
                / real (grid_width hypes * grid_height hypes * batch_size hypes) * h0"
    unfolding N_def by blast
  have len: "length (elems classes) = N" using w pc by (simp add: wf_def)
  have h0: "h0 = head_weights hypes ! 0" using h by (auto simp: index_def split: if_splits)
  have "reduce_sum xe = (\<Sum>j<N. xent_row (take (num_classes hypes)
                                    (drop (j * num_classes hypes) (elems pl)))
                                  (map (\<lambda>c. of_bool_int (0 < c)) (elems classes) ! j))"
    unfolding ssce_Inr(1)[OF x] reduce_sum_def by (simp add: sum_list_upt)
  also have "\<dots> = (\<Sum>j<N. xent_row (take (num_classes hypes)
                                    (drop (j * num_classes hypes) (elems pl)))
                                  (if 0 < elems classes ! j then 1 else 0))"
    by (rule sum.cong) (simp_all add: len of_bool_int_def)
  finally show ?thesis unfolding c h0 N_def by simp
qed

lemma loss_plain:
  assumes l: "loss u hypes (pb, pl, pc, cd, bd) (flags, confs, boxes) ph losses
                = Inr ((total_loss, conf, box), ls)"
    and m: "loss_matching u hypes pb flags boxes = Inr (classes, pt, pm)"
    and nz: "\<not> use_rezoom hypes"
  shows "\<exists>xe h0 h1 res.
       prod_list (shape classes) = grid_width hypes * grid_height hypes * batch_size hypes * rnn_len hypes
     \<and> prod_list (shape pl) = grid_width hypes * grid_height hypes * batch_size hypes * rnn_len hypes * num_classes hypes
     \<and> sparse_softmax_cross_entropy_with_logits
          (Tensor [grid_width hypes * grid_height hypes * batch_size hypes * rnn_len hypes,
                   num_classes hypes] (elems pl))
          (Tensor [grid_width hypes * grid_height hypes * batch_size hypes * rnn_len hypes]
                  (map (\<lambda>c. of_bool_int (0 < c)) (elems classes))) = Inr xe
     \<and> index (head_weights hypes) 0 = Inr h0
     \<and> index (head_weights hypes) 1 = Inr h1
     \<and> conf = reduce_sum xe
                / real (grid_width hypes * grid_height hypes * batch_size hypes) * h0
     \<and> box = reduce_sum (tmap abs res)
                / real (grid_width hypes * grid_height hypes * batch_size hypes) * h1
     \<and> total_loss = sum_list losses + (conf + box)"
  using l nz unfolding loss_def Let_def prod.case
  by (auto simp: m bnd_Inr_iff reshape_Inr_iff register_def)

text \<open>
  C5.  With rezoom disabled, a grid that has a cell, head weights that are not negative
  and no negative term registered before in the collection \<^verbatim>\<open>losses\<close>, the returned
  scalars satisfy
  \<open>total_loss \<ge> confidence_loss \<ge> 0\<close> and \<open>total_loss \<ge> box_loss \<ge> 0\<close>.
\<close>

theorem losses_nonnegative:
  assumes l: "loss u hypes (pb, pl, pc, cd, bd) (flags, confs, boxes) ph losses
                = Inr ((total_loss, conf, box), ls)"
    and m: "loss_matching u hypes pb flags boxes = Inr (classes, pt, pm)"
    and nz: "\<not> use_rezoom hypes"
    and hw: "\<forall>w \<in> set (head_weights hypes). 0 \<le> w"
    and prior: "\<forall>x \<in> set losses. 0 \<le> x"
    and wf: "wf pl" "wf classes"
    and cells: "0 < grid_width hypes * grid_height hypes * batch_size hypes"
  shows "conf \<le> total_loss \<and> 0 \<le> conf \<and> box \<le> total_loss \<and> 0 \<le> box"
proof -
  define n where "n = grid_width hypes * grid_height hypes * batch_size hypes"
  define N where "N = n * rnn_len hypes"
  define c where "c = num_classes hypes"
  from loss_plain[OF l m nz] obtain xe h0 h1 res where
    pc: "prod_list (shape classes) = N" and pl: "prod_list (shape pl) = N * c"
    and x: "sparse_softmax_cross_entropy_with_logits (Tensor [N, c] (elems pl))
              (Tensor [N] (map (\<lambda>c. of_bool_int (0 < c)) (elems classes))) = Inr xe"
    and h0: "index (head_weights hypes) 0 = Inr h0"
    and h1: "index (head_weights hypes) 1 = Inr h1"
    and cf: "conf = reduce_sum xe / real n * h0"
    and bx: "box = reduce_sum (tmap abs res) / real n * h1"
    and tl: "total_loss = sum_list losses + (conf + box)"
    unfolding n_def N_def c_def by blast
  let ?ts = "map (\<lambda>c. of_bool_int (0 < c)) (elems classes)"
  have lts: "length ?ts = N" using wf(2) pc by (simp add: wf_def)
  have lpl: "length (elems pl) = N * c" using wf(1) pl by (simp add: wf_def)
  have h0': "0 \<le> h0" and h1': "0 \<le> h1"
    using h0 h1 hw by (auto simp: index_def split: if_splits)
  have "0 \<le> xent_row (take c (drop (i * c) (elems pl))) (?ts ! i)" if i: "i < N" for i
  proof -
    from ssce_Inr(2)[OF x] i lts have r: "0 \<le> ?ts ! i" "?ts ! i < int c"
      by (auto simp: list_all_length)
    have "Suc i * c \<le> N * c" using i by (intro mult_le_mono1) simp
    then have "length (take c (drop (i * c) (elems pl))) = c" using lpl by simp
    with r show ?thesis by (intro xent_row_nonneg) simp
  qed
  then have "0 \<le> reduce_sum xe"
    unfolding ssce_Inr(1)[OF x] reduce_sum_def by (auto intro!: sum_list_nonneg)
  then have c0: "0 \<le> conf" unfolding cf using h0' by simp
  have "0 \<le> reduce_sum (tmap abs res)"
    unfolding reduce_sum_def by (auto intro!: sum_list_nonneg)
  then have b0: "0 \<le> box" unfolding bx using h1' by simp
  have "0 \<le> sum_list losses" using prior by (auto intro!: sum_list_nonneg)
  with c0 b0 tl show ?thesis by simp
qed

theorem losses_nonnegative_witness:
  "\<exists>total_loss conf box ls.
     loss example_utils example_hyp example_decoded example_labels Val [1/4]
       = Inr ((total_loss, conf, box), ls)
   \<and> conf \<le> total_loss \<and> 0 \<le> conf \<and> box \<le> total_loss \<and> 0 \<le> box \<and> box = 13 / 2"
proof -
  let ?pb = "Tensor [2, 1, 4] [10, 20, 2, 4, 30, 40, 6, 8] :: real tensor"
  let ?pl = "Tensor [2, 2] [0, 0, 0, 0] :: real tensor"
  let ?pc = "Tensor [2, 1, 2] [1/2, 1/2, 1/2, 1/2] :: real tensor"
  let ?f = "Tensor [1, 2, 1] [1, 0] :: int tensor"
  let ?c = "Tensor [1, 2, 1, 2] [0, 1, 1, 0] :: real tensor"
  let ?b = "Tensor [1, 2, 1, 4] [11, 22, 2, 4, 1, 2, 3, 4] :: real tensor"
  have l: "loss example_utils example_hyp (?pb, ?pl, ?pc, None, NoDeltas) (?f, ?c, ?b) Val [1/4]
     = Inr ((1 / 4 + (xent_row [0, 0] 1 / 2 + xent_row [0, 0] 0 / 2 + 13 / 2),
             xent_row [0, 0] 1 / 2 + xent_row [0, 0] 0 / 2, 13 / 2),
            [1 / 4, xent_row [0, 0] 1 / 2 + xent_row [0, 0] 0 / 2 + 13 / 2])"
    by (simp add: loss_eval_defs add_divide_distrib)
  have m: "loss_matching example_utils example_hyp ?pb ?f ?b
     = Inr (Tensor [2, 1] [1, 0], Tensor [2, 1, 4] [11, 22, 2, 4, 1, 2, 3, 4],
            Tensor [2, 1, 1] [1, 0])"
    by (simp add: loss_matching_def example_hyp_def reshape_def of_bool_real_def)
  have h: "\<not> use_rezoom example_hyp" "\<forall>w \<in> set (head_weights example_hyp). 0 \<le> w"
    "\<forall>x \<in> set [1/4::real]. 0 \<le> x" "wf ?pl" "wf (Tensor [2, 1] [1, 0::int])"
    "0 < grid_width example_hyp * grid_height example_hyp * batch_size example_hyp"
    by (simp_all add: example_hyp_def wf_def)
  from losses_nonnegative[OF l m h] l show ?thesis
    unfolding example_decoded_def example_labels_def example_pred_boxes_def by blast
qed

theorem classification_loss_witness:
  "\<exists>total_loss conf box ls.
     loss example_utils example_hyp example_decoded example_labels Val []
       = Inr ((total_loss, conf, box), ls)
   \<and> conf = (xent_row [0, 0] 1 + xent_row [0, 0] 0) / 2"
proof -
  let ?pb = "Tensor [2, 1, 4] [10, 20, 2, 4, 30, 40, 6, 8] :: real tensor"
  let ?pl = "Tensor [2, 2] [0, 0, 0, 0] :: real tensor"
  let ?pc = "Tensor [2, 1, 2] [1/2, 1/2, 1/2, 1/2] :: real tensor"
  let ?f = "Tensor [1, 2, 1] [1, 0] :: int tensor"
  let ?c = "Tensor [1, 2, 1, 2] [0, 1, 1, 0] :: real tensor"
  let ?b = "Tensor [1, 2, 1, 4] [11, 22, 2, 4, 1, 2, 3, 4] :: real tensor"
  define t where "t = xent_row [0, 0] 1 / 2 + xent_row [0, 0] 0 / 2 + 13 / 2"
  define c where "c = xent_row [0, 0] 1 / 2 + xent_row [0, 0] 0 / 2"
  have l: "loss example_utils example_hyp (?pb, ?pl, ?pc, None, NoDeltas) (?f, ?c, ?b) Val []
          = Inr ((t, c, 13 / 2), [t])"
    unfolding t_def c_def by (simp add: loss_eval_defs add_divide_distrib)
  have m: "loss_matching example_utils example_hyp ?pb ?f ?b
     = Inr (Tensor [2, 1] [1, 0], Tensor [2, 1, 4] [11, 22, 2, 4, 1, 2, 3, 4],
            Tensor [2, 1, 1] [1, 0])"
    by (simp add: loss_matching_def example_hyp_def reshape_def of_bool_real_def)
  have w: "wf (Tensor [2, 1] [1, 0::int])" by (simp add: wf_def)
  have two: "{..<2::nat} = {0, 1}" by auto
  from classification_loss[OF l m w]
  have "c = (xent_row [0, 0] 1 + xent_row [0, 0] 0) / 2"
    by (simp add: example_hyp_def two)
  with l show ?thesis
    unfolding example_decoded_def example_labels_def example_pred_boxes_def by blast
qed

text \<open>
  C1.  The box loss on the example: the second cell holds no object (flag 0, mask 0) and
  its label box is (1, 2, 3, 4).  The residual is \<open>perm_truth - pred_boxes * pred_mask\<close>,
  so this cell contributes 1 + 2 + 3 + 4 and the first cell 1 + 2; the box loss is 13 / 2,
  where the masked L1 distance would give 3 / 2.
\<close>

theorem unmatched_slot_box_loss:
  "loss example_utils example_hyp example_decoded example_labels Val []
     = Inr ((xent_row [0, 0] 1 / 2 + xent_row [0, 0] 0 / 2 + 13 / 2,
             xent_row [0, 0] 1 / 2 + xent_row [0, 0] 0 / 2, 13 / 2),
            [xent_row [0, 0] 1 / 2 + xent_row [0, 0] 0 / 2 + 13 / 2])"
  by (simp add: loss_eval_defs add_divide_distrib)

subsection \<open>Broadcasting, entry by entry\<close>

lemma binop_Inr:
  assumes "binop f a b = Inr c"
  shows "broadcast_shape (shape a) (shape b) = Some (shape c)"
    and "elems c = map (\<lambda>j. f (elems a ! bidx (shape a) (shape c) j)
                               (elems b ! bidx (shape b) (shape c) j))
                       [0..<prod_list (shape c)]"
  using assms by (auto simp: binop_def split: option.splits)

lemma binop_entry:
  assumes c: "binop f a b = Inr c" and idx: "list_all2 (<) idx (shape c)"
  shows "entry c idx
           = f (elems a ! ravel (shape a)
                  (map2 (\<lambda>d i. if d = 1 then 0 else i) (shape a)
                     (drop (length (shape c) - length (shape a)) idx)))
               (elems b ! ravel (shape b)
                  (map2 (\<lambda>d i. if d = 1 then 0 else i) (shape b)
                     (drop (length (shape c) - length (shape b)) idx)))"
  unfolding entry_def binop_Inr(2)[OF c]
  using ravel_less[OF idx] by (simp add: bidx_def unravel_ravel[OF idx])

lemma sum_regroup: "(\<Sum>j < a * b. g j) = (\<Sum>i < a. \<Sum>j < b. g (i * b + j :: nat))"
proof (induction a)
  case 0
  then show ?case by simp
next
  case (Suc a)
  have "{..<Suc a * b} = {..<a * b} \<union> {a * b..<a * b + b}" by auto
  moreover have "{..<a * b} \<inter> {a * b..<a * b + b} = {}" by auto
  ultimately have "(\<Sum>j < Suc a * b. g j) = (\<Sum>j < a * b. g j) + (\<Sum>j \<in> {a * b..<a * b + b}. g j)"
    by (simp add: sum.union_disjoint)
  also have "(\<Sum>j \<in> {a * b..<a * b + b}. g j) = (\<Sum>j < b. g (a * b + j))"
    using sum.shift_bounds_nat_ivl[of g 0 "a * b" b] by (simp add: atLeast0LessThan add.commute)
  finally show ?case using Suc.IH by simp
qed

lemma reduce_sum_entries:
  assumes "shape t = [n, r, c]" and "length (elems t) = n * r * c"
  shows "reduce_sum t = (\<Sum>i < n. \<Sum>k < r. \<Sum>j < c. entry t [i, k, j])"
proof -
  have "reduce_sum t = (\<Sum>q < n * (r * c). elems t ! q)"
    unfolding reduce_sum_def using assms(2)
    by (simp add: sum_list_sum_nth atLeast0LessThan mult.assoc)
  also have "\<dots> = (\<Sum>i < n. \<Sum>q < r * c. elems t ! (i * (r * c) + q))"
    by (rule sum_regroup)
  also have "\<dots> = (\<Sum>i < n. \<Sum>k < r. \<Sum>j < c. elems t ! (i * (r * c) + (k * c + j)))"
    by (simp add: sum_regroup)
  finally show ?thesis by (simp add: entry_def assms(1))
qed

lemma binop_length:
  "binop f a b = Inr c \<Longrightarrow> length (elems c) = prod_list (shape c)"
  by (simp add: binop_Inr(2))

lemma entry_tmap:
  "ravel (shape t) idx < length (elems t) \<Longrightarrow> entry (tmap f t) idx = f (entry t idx)"
  by (simp add: entry_def)

lemma broadcast_slots_c:
  "broadcast_shape [n, 1, c] [n, r, c] = Some [n, r, c]"
  "broadcast_shape [n, r, c] [n, 1, c] = Some [n, r, c]"
  "broadcast_shape [n, r, c] [n, r, c] = Some [n, r, c]"
  "broadcast_shape [n, r, c] [n, r, 1] = Some [n, r, c]"
  "broadcast_shape [n, 1, c] [n, r, 1] = Some [n, r, c]"
  "broadcast_shape [n, r] [n, r] = Some [n, r]"
  by (auto simp: broadcast_shape_def)

lemma binop_boxes_slots:
  assumes c: "binop f a b = Inr t" and a: "shape a = [n, 1, c]" and b: "shape b = [n, r, c]"
  shows "shape t = [n, r, c]"
    and "i < n \<Longrightarrow> k < r \<Longrightarrow> j < c \<Longrightarrow> entry t [i, k, j] = f (entry a [i, 0, j]) (entry b [i, k, j])"
proof -
  show s: "shape t = [n, r, c]"
    using binop_Inr(1)[OF c] unfolding a b broadcast_slots_c by simp
  assume "i < n" "k < r" "j < c"
  then have idx: "list_all2 (<) [i, k, j] (shape t)" by (simp add: s)
  show "entry t [i, k, j] = f (entry a [i, 0, j]) (entry b [i, k, j])"
    using \<open>i < n\<close> \<open>k < r\<close> \<open>j < c\<close> unfolding binop_entry[OF c idx]
    by (auto simp: s a b entry_def)
qed

lemma binop_slots_boxes:
  assumes c: "binop f a b = Inr t" and a: "shape a = [n, r, c]" and b: "shape b = [n, 1, c]"
  shows "shape t = [n, r, c]"
    and "i < n \<Longrightarrow> k < r \<Longrightarrow> j < c \<Longrightarrow> entry t [i, k, j] = f (entry a [i, k, j]) (entry b [i, 0, j])"
proof -
  show s: "shape t = [n, r, c]"
    using binop_Inr(1)[OF c] unfolding a b broadcast_slots_c by simp
  assume "i < n" "k < r" "j < c"
  then have idx: "list_all2 (<) [i, k, j] (shape t)" by (simp add: s)
  show "entry t [i, k, j] = f (entry a [i, k, j]) (entry b [i, 0, j])"
    using \<open>i < n\<close> \<open>k < r\<close> \<open>j < c\<close> unfolding binop_entry[OF c idx]
    by (auto simp: s a b entry_def)
qed

lemma binop_slots_slots:
  assumes c: "binop f a b = Inr t" and a: "shape a = [n, r, c]" and b: "shape b = [n, r, c]"
  shows "shape t = [n, r, c]"
    and "i < n \<Longrightarrow> k < r \<Longrightarrow> j < c \<Longrightarrow> entry t [i, k, j] = f (entry a [i, k, j]) (entry b [i, k, j])"
proof -
  show s: "shape t = [n, r, c]"
    using binop_Inr(1)[OF c] unfolding a b broadcast_slots_c by simp
  assume "i < n" "k < r" "j < c"
  then have idx: "list_all2 (<) [i, k, j] (shape t)" by (simp add: s)
  show "entry t [i, k, j] = f (entry a [i, k, j]) (entry b [i, k, j])"
    using \<open>i < n\<close> \<open>k < r\<close> \<open>j < c\<close> unfolding binop_entry[OF c idx]
    by (auto simp: s a b entry_def)
qed

lemma binop_slots_mask:
  assumes c: "binop f a b = Inr t" and a: "shape a = [n, r, c]" and b: "shape b = [n, r, 1]"
  shows "shape t = [n, r, c]"
    and "i < n \<Longrightarrow> k < r \<Longrightarrow> j < c \<Longrightarrow> entry t [i, k, j] = f (entry a [i, k, j]) (entry b [i, k, 0])"
proof -
  show s: "shape t = [n, r, c]"
    using binop_Inr(1)[OF c] unfolding a b broadcast_slots_c by simp
  assume "i < n" "k < r" "j < c"
  then have idx: "list_all2 (<) [i, k, j] (shape t)" by (simp add: s)
  show "entry t [i, k, j] = f (entry a [i, k, j]) (entry b [i, k, 0])"
    using \<open>i < n\<close> \<open>k < r\<close> \<open>j < c\<close> unfolding binop_entry[OF c idx]
    by (auto simp: s a b entry_def)
qed

lemma binop_boxes_mask:
  assumes c: "binop f a b = Inr t" and a: "shape a = [n, 1, c]" and b: "shape b = [n, r, 1]"
  shows "shape t = [n, r, c]"
    and "i < n \<Longrightarrow> k < r \<Longrightarrow> j < c \<Longrightarrow> entry t [i, k, j] = f (entry a [i, 0, j]) (entry b [i, k, 0])"
proof -
  show s: "shape t = [n, r, c]"
    using binop_Inr(1)[OF c] unfolding a b broadcast_slots_c by simp
  assume "i < n" "k < r" "j < c"
  then have idx: "list_all2 (<) [i, k, j] (shape t)" by (simp add: s)
  show "entry t [i, k, j] = f (entry a [i, 0, j]) (entry b [i, k, 0])"
    using \<open>i < n\<close> \<open>k < r\<close> \<open>j < c\<close> unfolding binop_entry[OF c idx]
    by (auto simp: s a b entry_def)
qed

lemma binop_cells:
  assumes c: "binop f a b = Inr t" and a: "shape a = [n, r]" and b: "shape b = [n, r]"
  shows "shape t = [n, r]"
    and "i < n \<Longrightarrow> k < r \<Longrightarrow> elems t ! (i * r + k) = f (elems a ! (i * r + k)) (elems b ! (i * r + k))"
proof -
  show s: "shape t = [n, r]"
    using binop_Inr(1)[OF c] unfolding a b broadcast_slots_c by simp
  assume "i < n" "k < r"
  then have idx: "list_all2 (<) [i, k] (shape t)" by (simp add: s)
  show "elems t ! (i * r + k) = f (elems a ! (i * r + k)) (elems b ! (i * r + k))"
    using \<open>i < n\<close> \<open>k < r\<close> binop_entry[OF c idx]
    by (auto simp: s a b entry_def)
qed

lemma sum_list_entries:
  assumes "shape t = [n, r, c]" and "length (elems t) = n * r * c"
  shows "sum_list (map f (elems t))
           = (\<Sum>i < n. \<Sum>k < r. \<Sum>j < c. (f (entry t [i, k, j]) :: real))"
proof -
  have "sum_list (map f (elems t)) = reduce_sum (tmap f t)" by (simp add: reduce_sum_def)
  also have "\<dots> = (\<Sum>i < n. \<Sum>k < r. \<Sum>j < c. entry (tmap f t) [i, k, j])"
    by (rule reduce_sum_entries) (simp_all add: assms)
  also have "\<dots> = (\<Sum>i < n. \<Sum>k < r. \<Sum>j < c. f (entry t [i, k, j]))"
  proof (intro sum.cong refl)
    fix i k j assume "i \<in> {..<n}" "k \<in> {..<r}" "j \<in> {..<c}"
    then have "list_all2 (<) [i, k, j] (shape t)" by (simp add: assms)
    from ravel_less[OF this] show "entry (tmap f t) [i, k, j] = f (entry t [i, k, j])"
      by (intro entry_tmap) (simp add: assms)
  qed
  finally show ?thesis .
qed

lemma slot_position:
  assumes "i < n" "k < (r::nat)"
  shows "i * r + k < n * r" and "Suc (i * r + k) * c \<le> n * r * c"
proof -
  have "i * r + k < i * r + r" using assms by simp
  also have "\<dots> = Suc i * r" by simp
  also have "\<dots> \<le> n * r" using assms by (intro mult_le_mono1) simp
  finally show lt: "i * r + k < n * r" .
  then show "Suc (i * r + k) * c \<le> n * r * c" by (intro mult_le_mono1) simp
qed

lemma slice_last_entry:
  assumes sl: "slice_last 3 t a b = Inr s" and sh: "shape t = [n, r, c]"
    and w: "wf t" and bc: "b \<le> c"
  shows "shape s = [n, r, b - a]"
    and "length (elems s) = n * r * (b - a)"
    and "i < n \<Longrightarrow> k < r \<Longrightarrow> j < b - a \<Longrightarrow> entry s [i, k, j] = entry t [i, k, a + j]"
proof -
  have len: "length (elems t) = n * r * c" using w sh by (simp add: wf_def)
  from sl sh bc have s: "s = Tensor [n, r, b - a]
      (concat (map (\<lambda>row. take (b - a) (drop a row)) (rows_of (n * r) c (elems t))))"
    by (auto simp: slice_last_def Let_def min_def split: if_splits)
  show "shape s = [n, r, b - a]" by (simp add: s)
  have rowlen: "length (take (b - a) (drop a row)) = b - a"
    if "row \<in> set (rows_of (n * r) c (elems t))" for row
  proof -
    from that obtain q where q: "q < n * r" "row = take c (drop (q * c) (elems t))"
      by (auto simp: rows_of_def)
    have "Suc q * c \<le> n * r * c" using q(1) by (intro mult_le_mono1) simp
    then have "length row = c" using len q(2) by simp
    then show ?thesis using bc by simp
  qed
  show "length (elems s) = n * r * (b - a)"
    using length_concat_uniform[of "rows_of (n * r) c (elems t)"
        "\<lambda>row. take (b - a) (drop a row)" "b - a"] rowlen
    by (simp add: s rows_of_def)
  assume i: "i < n" and k: "k < r" and j: "j < b - a"
  have q: "i * r + k < n * r" and q': "Suc (i * r + k) * c \<le> n * r * c"
    using slot_position[OF i k] by simp_all
  have "concat (map (\<lambda>row. take (b - a) (drop a row)) (rows_of (n * r) c (elems t)))
          ! ((i * r + k) * (b - a) + j)
        = take (b - a) (drop a (rows_of (n * r) c (elems t) ! (i * r + k))) ! j"
    by (rule nth_concat_uniform) (use rowlen q j in \<open>simp_all add: rows_of_def\<close>)
  also have "\<dots> = elems t ! ((i * r + k) * c + (a + j))"
    using q q' j bc len by (simp add: rows_of_def add.assoc)
  finally show "entry s [i, k, j] = entry t [i, k, a + j]"
    by (simp add: entry_def s sh algebra_simps)
qed

subsection \<open>The losses of the rezoom\<close>

lemma loss_rezoom:
  assumes l: "loss u hypes (pb, pl, pc, cd, bd) (flags, confs, boxes) ph losses
                = Inr ((total_loss, conf, box), ls)"
    and m: "loss_matching u hypes pb flags boxes = Inr (classes, pt, pm)"
    and z: "use_rezoom hypes"
  shows "\<exists>h0 h1 masked diff ins cdt x2.
       index (head_weights hypes) 0 = Inr h0
     \<and> index (head_weights hypes) 1 = Inr h1
     \<and> binop (*) pb pm = Inr masked \<and> binop (-) pt masked = Inr diff
     \<and> inside_target u hypes pb pt classes = Inr ins
     \<and> cd = Some cdt
     \<and> sparse_softmax_cross_entropy_with_logits cdt ins = Inr x2
     \<and> (if reregress hypes
         then \<exists>d corrected du md.
                bd = Deltas d \<and> binop (+) pb d = Inr corrected
              \<and> binop (-) pt corrected = Inr du \<and> binop (*) du pm = Inr md
              \<and> box = sum_list (map (\<lambda>x. min (x\<^sup>2) (10\<^sup>2)) (elems md))
                       / real (grid_width hypes * grid_height hypes * batch_size hypes)
                       * h1 * 0.03
              \<and> total_loss = sum_list losses
                   + (conf
                      + sum_list (map abs (elems diff))
                          / real (grid_width hypes * grid_height hypes * batch_size hypes) * h1
                      + reduce_sum x2
                          / real (grid_width hypes * grid_height hypes * batch_size hypes)
                          * h0 * 0.1
                      + box)
         else box = sum_list (map abs (elems diff))
                      / real (grid_width hypes * grid_height hypes * batch_size hypes) * h1
              \<and> total_loss = sum_list losses
                   + (conf + box
                      + reduce_sum x2
                          / real (grid_width hypes * grid_height hypes * batch_size hypes)
                          * h0 * 0.1))"
proof (cases "reregress hypes")
  case True
  show ?thesis
    using l z True unfolding loss_def Let_def prod.case
    by (auto simp: m bnd_Inr_iff reshape_Inr_iff register_def reduce_sum_def
             split: option.splits deltas.splits)
next
  case False
  show ?thesis
    using l z False unfolding loss_def Let_def prod.case
    by (auto simp: m bnd_Inr_iff reshape_Inr_iff register_def reduce_sum_def
             split: option.splits)
qed

text \<open>
  C2.  With \<^verbatim>\<open>use_rezoom\<close> and \<^verbatim>\<open>reregress\<close>, the returned box loss is the sum over cells,
  slots and the four coordinates of the squared residual
  \<open>(perm_truth - (pred_boxes + pred_boxes_deltas)) * pred_mask\<close>, each square cut off at
  100, divided by the outer size and multiplied by \<open>head_weights[1] * 0.03\<close>.  It
  replaces the base box loss in the returned triple, and the total is the terms
  registered before plus the confidence loss, the base box loss, the delta-confidence
  loss and this term.
\<close>

theorem reregression_loss:
  assumes l: "loss u hypes (pb, pl, pc, cd, Deltas d) (flags, confs, boxes) ph losses
                = Inr ((total_loss, conf, box), ls)"
    and m: "loss_matching u hypes pb flags boxes = Inr (classes, pt, pm)"
    and z: "use_rezoom hypes" and g: "reregress hypes"
    and n: "n = grid_width hypes * grid_height hypes * batch_size hypes"
    and s: "shape pb = [n, 1, 4]" "shape d = [n, r, 4]" "shape pt = [n, r, 4]"
           "shape pm = [n, r, 1]"
  shows "box = (\<Sum>i < n. \<Sum>k < r. \<Sum>c < 4.
                  min (((entry pt [i, k, c] - (entry pb [i, 0, c] + entry d [i, k, c]))
                          * entry pm [i, k, 0])\<^sup>2) 100)
               / real n * (head_weights hypes ! 1 * 0.03)
       \<and> (\<exists>ins cdt x2.
             cd = Some cdt \<and> inside_target u hypes pb pt classes = Inr ins
           \<and> sparse_softmax_cross_entropy_with_logits cdt ins = Inr x2
           \<and> total_loss = sum_list losses
                + (conf
                   + (\<Sum>i < n. \<Sum>k < r. \<Sum>c < 4.
                        \<bar>entry pt [i, k, c] - entry pb [i, 0, c] * entry pm [i, k, 0]\<bar>)
                       / real n * head_weights hypes ! 1
                   + reduce_sum x2 / real n * head_weights hypes ! 0 * 0.1
                   + box))"
proof -
  from loss_rezoom[OF l m z] g obtain h0 h1 masked diff ins cdt x2 corrected du md where
    h0: "index (head_weights hypes) 0 = Inr h0" and h1: "index (head_weights hypes) 1 = Inr h1"
    and ma: "binop (*) pb pm = Inr masked" and di: "binop (-) pt masked = Inr diff"
    and ins: "inside_target u hypes pb pt classes = Inr ins" and cd: "cd = Some cdt"
    and x2: "sparse_softmax_cross_entropy_with_logits cdt ins = Inr x2"
    and co: "binop (+) pb d = Inr corrected" and du: "binop (-) pt corrected = Inr du"
    and md: "binop (*) du pm = Inr md"
    and bx: "box = sum_list (map (\<lambda>x. min (x\<^sup>2) (10\<^sup>2)) (elems md)) / real n * h1 * 0.03"
    and tl: "total_loss = sum_list losses
               + (conf + sum_list (map abs (elems diff)) / real n * h1
                  + reduce_sum x2 / real n * h0 * 0.1 + box)"
    unfolding n[symmetric] by auto
  have h0': "h0 = head_weights hypes ! 0" and h1': "h1 = head_weights hypes ! 1"
    using h0 h1 by (auto simp: index_def split: if_splits)
  note c1 = binop_boxes_slots[OF co s(1) s(2)]
  note c2 = binop_slots_slots[OF du s(3) c1(1)]
  note c3 = binop_slots_mask[OF md c2(1) s(4)]
  note b1 = binop_boxes_mask[OF ma s(1) s(4)]
  note b2 = binop_slots_slots[OF di s(3) b1(1)]
  have "sum_list (map (\<lambda>x. min (x\<^sup>2) (10\<^sup>2)) (elems md))
          = (\<Sum>i < n. \<Sum>k < r. \<Sum>c < 4. min ((entry md [i, k, c])\<^sup>2) (10\<^sup>2))"
    by (rule sum_list_entries) (simp_all add: c3(1) binop_length[OF md])
  also have "\<dots> = (\<Sum>i < n. \<Sum>k < r. \<Sum>c < 4.
                  min (((entry pt [i, k, c] - (entry pb [i, 0, c] + entry d [i, k, c]))
                          * entry pm [i, k, 0])\<^sup>2) 100)"
    by (intro sum.cong refl) (simp add: c1(2) c2(2) c3(2))
  finally have box: "box = (\<Sum>i < n. \<Sum>k < r. \<Sum>c < 4.
                  min (((entry pt [i, k, c] - (entry pb [i, 0, c] + entry d [i, k, c]))
                          * entry pm [i, k, 0])\<^sup>2) 100)
               / real n * (head_weights hypes ! 1 * 0.03)"
    unfolding bx h1' by simp
  have "sum_list (map abs (elems diff))
          = (\<Sum>i < n. \<Sum>k < r. \<Sum>c < 4. \<bar>entry diff [i, k, c]\<bar>)"
    by (rule sum_list_entries) (simp_all add: b2(1) binop_length[OF di])
  also have "\<dots> = (\<Sum>i < n. \<Sum>k < r. \<Sum>c < 4.
                        \<bar>entry pt [i, k, c] - entry pb [i, 0, c] * entry pm [i, k, 0]\<bar>)"
    by (intro sum.cong refl) (simp add: b1(2) b2(2))
  finally have base: "sum_list (map abs (elems diff))
      = (\<Sum>i < n. \<Sum>k < r. \<Sum>c < 4.
            \<bar>entry pt [i, k, c] - entry pb [i, 0, c] * entry pm [i, k, 0]\<bar>)" .
  show ?thesis
    using box cd ins x2 tl unfolding base h0' h1' by blast
qed

lemmas rezoom_eval_defs = example_hyp_rezoom_def example_decoded_rezoom_def example_deltas_def
  inside_target_def slice_last_def rows_of_def reduce_sum_axis2_def reshape_flat_def
  delta_histograms_def tmap_def

theorem reregression_loss_witness:
  "\<exists>total_loss conf ls.
     loss example_utils example_hyp_rezoom example_decoded_rezoom example_labels Val []
       = Inr ((total_loss, conf, 39 / 25), ls)
   \<and> (39 / 25 :: real) = (min ((11 - (10 + - 19))\<^sup>2) 100 + min ((22 - (20 + 0))\<^sup>2) 100) / 2 * (1 * 0.03)"
proof -
  let ?pb = "Tensor [2, 1, 4] [10, 20, 2, 4, 30, 40, 6, 8] :: real tensor"
  let ?pl = "Tensor [2, 2] [0, 0, 0, 0] :: real tensor"
  let ?pc = "Tensor [2, 1, 2] [1/2, 1/2, 1/2, 1/2] :: real tensor"
  let ?d = "Tensor [2, 1, 4] [-19, 0, 0, 0, 0, 0, 0, 0] :: real tensor"
  let ?f = "Tensor [1, 2, 1] [1, 0] :: int tensor"
  let ?c = "Tensor [1, 2, 1, 2] [0, 1, 1, 0] :: real tensor"
  let ?b = "Tensor [1, 2, 1, 4] [11, 22, 2, 4, 1, 2, 3, 4] :: real tensor"
  let ?pt = "Tensor [2, 1, 4] [11, 22, 2, 4, 1, 2, 3, 4] :: real tensor"
  let ?pm = "Tensor [2, 1, 1] [1, 0] :: real tensor"
  define c where "c = (xent_row [0, 0] 1 + xent_row [0, 0] 0) / 2"
  define t where "t = 403 / 50 + (c + xent_row [0, 0] 0 / 10)"
  have l: "loss example_utils example_hyp_rezoom (?pb, ?pl, ?pc, Some ?pl, Deltas ?d)
             (?f, ?c, ?b) Val [] = Inr ((t, c, 39 / 25), [t])"
    unfolding t_def c_def
    by (simp add: loss_eval_defs rezoom_eval_defs power2_eq_square)
  have m: "loss_matching example_utils example_hyp_rezoom ?pb ?f ?b
             = Inr (Tensor [2, 1] [1, 0], ?pt, ?pm)"
    by (simp add: loss_matching_def example_hyp_rezoom_def example_hyp_def reshape_def
        of_bool_real_def)
  have h: "use_rezoom example_hyp_rezoom" "reregress example_hyp_rezoom"
    "2 = grid_width example_hyp_rezoom * grid_height example_hyp_rezoom
           * batch_size example_hyp_rezoom"
    "shape ?pb = [2, 1, 4]" "shape ?d = [2, 1, 4]" "shape ?pt = [2, 1, 4]"
    "shape ?pm = [2, 1, 1]"
    by (simp_all add: example_hyp_rezoom_def example_hyp_def)
  have two: "{..<2::nat} = {0, 1}" and four: "{..<4::nat} = {0, 1, 2, 3}" by auto
  from reregression_loss[OF l m h]
  have "(39 / 25 :: real) = (min ((11 - (10 + - 19))\<^sup>2) 100 + min ((22 - (20 + 0))\<^sup>2) 100)
          / 2 * (1 * 0.03)"
    by (simp add: two four entry_def example_hyp_rezoom_def example_hyp_def)
  with l show ?thesis
    unfolding example_decoded_rezoom_def example_labels_def example_pred_boxes_def
      example_deltas_def by blast
qed

lemma reduce_sum_axis2_pairs:
  assumes rs: "reduce_sum_axis2 t = Inr s" and sh: "shape t = [n, r, 2]"
    and len: "length (elems t) = n * r * 2"
  shows "shape s = [n, r]" and "length (elems s) = n * r"
    and "i < n \<Longrightarrow> k < r \<Longrightarrow> elems s ! (i * r + k) = entry t [i, k, 0] + entry t [i, k, 1]"
proof -
  from rs sh have s: "s = Tensor [n, r] (map sum_list (rows_of (n * r) 2 (elems t)))"
    by (auto simp: reduce_sum_axis2_def split: if_splits)
  show "shape s = [n, r]" "length (elems s) = n * r" by (simp_all add: s rows_of_def)
  assume i: "i < n" and k: "k < r"
  have q: "i * r + k < n * r" and q': "Suc (i * r + k) * 2 \<le> n * r * 2"
    using slot_position[OF i k] by simp_all
  have "take 2 (drop ((i * r + k) * 2) (elems t))
          = [elems t ! ((i * r + k) * 2), elems t ! ((i * r + k) * 2 + 1)]"
    using q' len by (intro nth_equalityI) (auto simp: less_Suc_eq numeral_2_eq_2)
  moreover have "entry t [i, k, 0] = elems t ! ((i * r + k) * 2)"
    "entry t [i, k, 1] = elems t ! ((i * r + k) * 2 + 1)"
    by (simp_all add: entry_def sh add_mult_distrib mult.assoc)
  ultimately show "elems s ! (i * r + k) = entry t [i, k, 0] + entry t [i, k, 1]"
    using q by (simp add: s rows_of_def del: One_nat_def)
qed

lemma inside_center:
  assumes it: "inside_target u hypes pb pt classes = Inr ins"
    and c: "rezoom_change_loss hypes = ''center''"
    and sh: "shape pb = [n, 1, 4]" "shape pt = [n, r, 4]" "shape classes = [n, r]"
    and w: "wf pb" "wf pt" "wf classes"
    and i: "i < n" and k: "k < r"
  shows "elems ins ! (i * r + k)
           = (if ((entry pt [i, k, 0] - entry pb [i, 0, 0]) / max (entry pt [i, k, 2]) 1)\<^sup>2
                 + ((entry pt [i, k, 1] - entry pb [i, 0, 1]) / max (entry pt [i, k, 3]) 1)\<^sup>2
                 < (0.2)\<^sup>2
               \<and> 0 < entry classes [i, k]
              then 1 else 0)"
proof -
  from it c obtain txy pxy twh off err se both where
    txy: "slice_last 3 pt 0 2 = Inr txy" and pxy: "slice_last 3 pb 0 2 = Inr pxy"
    and twh: "slice_last 3 pt 2 4 = Inr twh"
    and off: "binop (-) txy pxy = Inr off"
    and err: "binop (/) off (tmap (\<lambda>x. max x 1) twh) = Inr err"
    and se: "reduce_sum_axis2 (tmap (\<lambda>x. x\<^sup>2) err) = Inr se"
    and both: "binop (\<and>) (tmap (\<lambda>x. x < (0.2)\<^sup>2) se) (tmap (\<lambda>c. 0 < c) classes) = Inr both"
    and ins: "ins = reshape_flat (tmap of_bool_int both)"
    unfolding inside_target_def by (auto simp: bnd_Inr_iff)
  have le: "(2::nat) \<le> 4" "(4::nat) \<le> 4" by simp_all
  note t1 = slice_last_entry[OF txy sh(2) w(2) le(1)]
  note p1 = slice_last_entry[OF pxy sh(1) w(1) le(1)]
  note t2 = slice_last_entry[OF twh sh(2) w(2) le(2)]
  have s2: "shape txy = [n, r, 2]" "shape pxy = [n, 1, 2]" "shape twh = [n, r, 2]"
    using t1(1) p1(1) t2(1) by simp_all
  note o1 = binop_slots_boxes[OF off s2(1) s2(2)]
  have stw: "shape (tmap (\<lambda>x. max x 1) twh) = [n, r, 2]" by (simp add: s2)
  note e1 = binop_slots_slots[OF err o1(1) stw]
  have lerr: "length (elems err) = n * r * 2" using binop_length[OF err] e1(1) by simp
  have ltw: "length (elems twh) = n * r * 2" using t2(2) by simp
  have ssq: "shape (tmap (\<lambda>x. x\<^sup>2) err) = [n, r, 2]"
    "length (elems (tmap (\<lambda>x. x\<^sup>2) err)) = n * r * 2"
    by (simp_all add: e1(1) lerr)
  note r1 = reduce_sum_axis2_pairs[OF se ssq]
  have sb: "shape (tmap (\<lambda>x. x < (0.2)\<^sup>2) se) = [n, r]"
    "shape (tmap (\<lambda>c. 0 < c) classes) = [n, r]" by (simp_all add: r1(1) sh)
  note b1 = binop_cells[OF both sb]
  have q: "i * r + k < n * r" using slot_position(1)[OF i k] .
  have lc: "length (elems classes) = n * r" using w(3) sh(3) by (simp add: wf_def)
  have lb: "length (elems both) = n * r" using binop_length[OF both] b1(1) by simp
  have in2: "ravel [n, r, 2] [i, k, j] < n * r * 2" if "j < 2" for j
    using ravel_less[of "[i, k, j]" "[n, r, 2]"] i k that by simp
  have e_err: "entry err [i, k, j]
      = (entry pt [i, k, j] - entry pb [i, 0, j]) / max (entry pt [i, k, 2 + j]) 1"
    if j: "j < 2" for j
  proof -
    have "entry (tmap (\<lambda>x. max x 1) twh) [i, k, j] = max (entry twh [i, k, j]) 1"
      by (rule entry_tmap) (use in2[OF j] ltw s2 in simp)
    then show ?thesis
      using e1(2)[OF i k j] o1(2)[OF i k j] t1(3)[OF i k] p1(3)[of i 0 j] t2(3)[OF i k] i j
      by simp
  qed
  have e_sq: "entry (tmap (\<lambda>x. x\<^sup>2) err) [i, k, j] = (entry err [i, k, j])\<^sup>2" if j: "j < 2" for j
    by (rule entry_tmap) (use in2[OF j] lerr e1(1) in simp)
  have "elems se ! (i * r + k)
      = ((entry pt [i, k, 0] - entry pb [i, 0, 0]) / max (entry pt [i, k, 2]) 1)\<^sup>2
      + ((entry pt [i, k, 1] - entry pb [i, 0, 1]) / max (entry pt [i, k, 3]) 1)\<^sup>2"
    using r1(3)[OF i k] e_sq[of 0] e_sq[of 1] e_err[of 0] e_err[of 1] by simp
  moreover have "elems both ! (i * r + k)
      = (elems se ! (i * r + k) < (0.2)\<^sup>2 \<and> 0 < elems classes ! (i * r + k))"
    using b1(2)[OF i k] q r1(2) lc by simp
  moreover have "elems ins ! (i * r + k) = of_bool_int (elems both ! (i * r + k))"
    using q lb by (simp add: ins reshape_flat_def)
  moreover have "entry classes [i, k] = elems classes ! (i * r + k)"
    by (simp add: entry_def sh)
  ultimately show ?thesis by (simp add: of_bool_int_def)
qed

lemma to_x1y1x2y2_rows:
  assumes "to_x1y1x2y2 u t = Inr c" and "shape t = [m, 4]"
  shows "shape c = [m, 4]" and "q < m \<Longrightarrow> box_at c q = corner_box u (box_at t q)"
proof -
  from assms have c: "c = Tensor [m, 4] (concat (map (corner_box u) (rows_of m 4 (elems t))))"
    by (auto simp: to_x1y1x2y2_def split: if_splits)
  show "shape c = [m, 4]" by (simp add: c)
  assume q: "q < m"
  have "take 4 (drop (q * 4) (concat (map (corner_box u) (rows_of m 4 (elems t)))))
          = corner_box u (rows_of m 4 (elems t) ! q)"
    by (rule take_drop_concat_uniform)
       (use q in \<open>auto simp: rows_of_def corner_box_def split: prod.splits\<close>)
  then show "box_at c q = corner_box u (box_at t q)"
    using q by (simp add: box_at_def c rows_of_def)
qed

lemma inside_iou:
  assumes it: "inside_target u hypes pb pt classes = Inr ins"
    and c: "rezoom_change_loss hypes = ''iou''"
    and sh: "shape pb = [n, 1, 4]" "shape pt = [n, r, 4]"
    and q: "q < n * r"
  shows "elems ins ! q
           = (if 0.5 < iou_box u (corner_box u (box_at pb q)) (corner_box u (box_at pt q))
              then 1 else 0)"
proof -
  from it c sh obtain pc tc io where
    pc: "to_x1y1x2y2 u (Tensor [n, 4] (elems pb)) = Inr pc"
    and tc: "to_x1y1x2y2 u (Tensor [n * r, 4] (elems pt)) = Inr tc"
    and io: "iou u pc tc = Inr io"
    and ins: "ins = reshape_flat (tmap (\<lambda>x. of_bool_int (0.5 < x)) io)"
    unfolding inside_target_def
    by (auto simp: bnd_Inr_iff reshape_rows_def split: if_splits)
  note p1 = to_x1y1x2y2_rows[OF pc, of n]
  note t1 = to_x1y1x2y2_rows[OF tc, of "n * r"]
  from io p1(1) t1(1) have nr: "n = n * r"
    and i: "io = Tensor [n] (map (\<lambda>i. iou_box u (box_at pc i) (box_at tc i)) [0..<n])"
    by (auto simp: iou_def split: if_splits)
  have qn: "q < n" using q nr by simp
  have "elems ins ! q = of_bool_int (0.5 < iou_box u (box_at pc q) (box_at tc q))"
    using qn by (simp add: ins reshape_flat_def i)
  also have "box_at pc q = corner_box u (box_at pb q)"
    using p1(2)[OF _ qn] by (simp add: box_at_def)
  also have "box_at tc q = corner_box u (box_at pt q)"
    using t1(2)[OF _ q] by (simp add: box_at_def)
  finally show ?thesis by (simp add: of_bool_int_def)
qed

lemma inside_present:
  assumes it: "inside_target u hypes pb pt classes = Inr ins"
    and c: "rezoom_change_loss hypes = []"
    and q: "q < length (elems classes)"
  shows "elems ins ! q = (if 0 < elems classes ! q then 1 else 0)"
  using it c q by (auto simp: inside_target_def reshape_flat_def of_bool_int_def)

lemma inside_other:
  assumes "rezoom_change_loss hypes \<noteq> ''center''" "rezoom_change_loss hypes \<noteq> ''iou''"
    "rezoom_change_loss hypes \<noteq> []"
  shows "inside_target u hypes pb pt classes = Inl AssertionError"
  using assms by (simp add: inside_target_def)

text \<open>
  C4.  With \<^verbatim>\<open>use_rezoom\<close>, the target of the delta-confidence cross-entropy at a slot is,
  under \<^verbatim>\<open>center\<close>, 1 exactly when the squared centre offset, each coordinate divided by
  the larger of the ground-truth extent and 1, is below \<open>0.2\<^sup>2\<close> and the class is positive;
  under \<^verbatim>\<open>iou\<close>, 1 exactly when the IoU of the corner forms of the predicted and the
  matched box exceeds 0.5, hence 1 for identical boxes whose IoU is 1; otherwise 1 exactly
  when the class is positive.  The cross-entropy sum, divided by the outer size and
  multiplied by \<open>head_weights[0] * 0.1\<close>, is a summand of the total loss.
\<close>

theorem delta_confidence_loss:
  assumes l: "loss u hypes (pb, pl, pc, cd, bd) (flags, confs, boxes) ph losses
                = Inr ((total_loss, conf, box), ls)"
    and m: "loss_matching u hypes pb flags boxes = Inr (classes, pt, pm)"
    and z: "use_rezoom hypes"
    and n: "n = grid_width hypes * grid_height hypes * batch_size hypes"
    and sh: "shape pb = [n, 1, 4]" "shape pt = [n, r, 4]" "shape pm = [n, r, 1]"
            "shape classes = [n, r]"
    and w: "wf pb" "wf pt" "wf classes"
  shows "\<exists>ins cdt x2.
       inside_target u hypes pb pt classes = Inr ins \<and> cd = Some cdt
     \<and> sparse_softmax_cross_entropy_with_logits cdt ins = Inr x2
     \<and> total_loss = sum_list losses
          + (conf
             + (\<Sum>i < n. \<Sum>k < r. \<Sum>c < 4.
                  \<bar>entry pt [i, k, c] - entry pb [i, 0, c] * entry pm [i, k, 0]\<bar>)
                 / real n * head_weights hypes ! 1
             + reduce_sum x2 / real n * (head_weights hypes ! 0 * 0.1)
             + (if reregress hypes then box else 0))
     \<and> (rezoom_change_loss hypes = ''center'' \<longrightarrow>
          (\<forall>i < n. \<forall>k < r.
             elems ins ! (i * r + k)
               = (if ((entry pt [i, k, 0] - entry pb [i, 0, 0]) / max (entry pt [i, k, 2]) 1)\<^sup>2
                     + ((entry pt [i, k, 1] - entry pb [i, 0, 1]) / max (entry pt [i, k, 3]) 1)\<^sup>2
                     < (0.2)\<^sup>2
                   \<and> 0 < entry classes [i, k]
                  then 1 else 0)))
     \<and> (rezoom_change_loss hypes = ''iou'' \<longrightarrow>
          (\<forall>q < n * r.
             elems ins ! q
               = (if 0.5 < iou_box u (corner_box u (box_at pb q)) (corner_box u (box_at pt q))
                  then 1 else 0)
           \<and> (box_at pb q = box_at pt q
                \<and> iou_box u (corner_box u (box_at pt q)) (corner_box u (box_at pt q)) = 1
                \<longrightarrow> elems ins ! q = 1)))
     \<and> (rezoom_change_loss hypes \<noteq> ''center'' \<and> rezoom_change_loss hypes \<noteq> ''iou'' \<longrightarrow>
          (\<forall>q < n * r. elems ins ! q = (if 0 < elems classes ! q then 1 else 0)))"
proof -
  from loss_rezoom[OF l m z] obtain h0 h1 masked diff ins cdt x2 where
    h0: "index (head_weights hypes) 0 = Inr h0" and h1: "index (head_weights hypes) 1 = Inr h1"
    and ma: "binop (*) pb pm = Inr masked" and di: "binop (-) pt masked = Inr diff"
    and ins: "inside_target u hypes pb pt classes = Inr ins" and cd: "cd = Some cdt"
    and x2: "sparse_softmax_cross_entropy_with_logits cdt ins = Inr x2"
    and rest: "if reregress hypes
         then \<exists>d corrected du md.
                bd = Deltas d \<and> binop (+) pb d = Inr corrected
              \<and> binop (-) pt corrected = Inr du \<and> binop (*) du pm = Inr md
              \<and> box = sum_list (map (\<lambda>x. min (x\<^sup>2) (10\<^sup>2)) (elems md)) / real n * h1 * 0.03
              \<and> total_loss = sum_list losses
                   + (conf + sum_list (map abs (elems diff)) / real n * h1
                      + reduce_sum x2 / real n * h0 * 0.1 + box)
         else box = sum_list (map abs (elems diff)) / real n * h1
              \<and> total_loss = sum_list losses
                   + (conf + box + reduce_sum x2 / real n * h0 * 0.1)"
    unfolding n[symmetric] by blast
  have tl: "total_loss = sum_list losses
               + (conf + sum_list (map abs (elems diff)) / real n * h1
                  + reduce_sum x2 / real n * h0 * 0.1 + (if reregress hypes then box else 0))"
  proof (cases "reregress hypes")
    case True
    with rest show ?thesis by auto
  next
    case False
    with rest show ?thesis by simp
  qed
  have h0': "h0 = head_weights hypes ! 0" and h1': "h1 = head_weights hypes ! 1"
    using h0 h1 by (auto simp: index_def split: if_splits)
  note b1 = binop_boxes_mask[OF ma sh(1) sh(3)]
  note b2 = binop_slots_slots[OF di sh(2) b1(1)]
  have "sum_list (map abs (elems diff))
          = (\<Sum>i < n. \<Sum>k < r. \<Sum>c < 4. \<bar>entry diff [i, k, c]\<bar>)"
    by (rule sum_list_entries) (simp_all add: b2(1) binop_length[OF di])
  also have "\<dots> = (\<Sum>i < n. \<Sum>k < r. \<Sum>c < 4.
                        \<bar>entry pt [i, k, c] - entry pb [i, 0, c] * entry pm [i, k, 0]\<bar>)"
    by (intro sum.cong refl) (simp add: b1(2) b2(2))
  finally have base: "sum_list (map abs (elems diff))
      = (\<Sum>i < n. \<Sum>k < r. \<Sum>c < 4.
            \<bar>entry pt [i, k, c] - entry pb [i, 0, c] * entry pm [i, k, 0]\<bar>)" .
  have total: "total_loss = sum_list losses
          + (conf
             + (\<Sum>i < n. \<Sum>k < r. \<Sum>c < 4.
                  \<bar>entry pt [i, k, c] - entry pb [i, 0, c] * entry pm [i, k, 0]\<bar>)
                 / real n * head_weights hypes ! 1
             + reduce_sum x2 / real n * (head_weights hypes ! 0 * 0.1)
             + (if reregress hypes then box else 0))"
    using tl unfolding base h0' h1' by simp
  have center: "\<forall>i < n. \<forall>k < r.
             elems ins ! (i * r + k)
               = (if ((entry pt [i, k, 0] - entry pb [i, 0, 0]) / max (entry pt [i, k, 2]) 1)\<^sup>2
                     + ((entry pt [i, k, 1] - entry pb [i, 0, 1]) / max (entry pt [i, k, 3]) 1)\<^sup>2
                     < (0.2)\<^sup>2
                   \<and> 0 < entry classes [i, k]
                  then 1 else 0)"
    if "rezoom_change_loss hypes = ''center''"
    using inside_center[OF ins that sh(1,2,4) w] by blast
  have iou: "\<forall>q < n * r.
             elems ins ! q
               = (if 0.5 < iou_box u (corner_box u (box_at pb q)) (corner_box u (box_at pt q))
                  then 1 else 0)
           \<and> (box_at pb q = box_at pt q
                \<and> iou_box u (corner_box u (box_at pt q)) (corner_box u (box_at pt q)) = 1
                \<longrightarrow> elems ins ! q = 1)"
    if "rezoom_change_loss hypes = ''iou''"
    using inside_iou[OF ins that sh(1,2)] by simp
  have lc: "length (elems classes) = n * r" using w(3) sh(4) by (simp add: wf_def)
  have present: "\<forall>q < n * r. elems ins ! q = (if 0 < elems classes ! q then 1 else 0)"
    if o: "rezoom_change_loss hypes \<noteq> ''center'' \<and> rezoom_change_loss hypes \<noteq> ''iou''"
  proof -
    have "rezoom_change_loss hypes = []"
    proof (rule ccontr)
      assume "rezoom_change_loss hypes \<noteq> []"
      with o have "inside_target u hypes pb pt classes = Inl AssertionError"
        by (intro inside_other) simp_all
      with ins show False by simp
    qed
    from inside_present[OF ins this] lc show ?thesis by simp
  qed
  show ?thesis
    using ins cd x2 total center iou present by blast
qed

lemmas target_eval_defs = example_hyp_iou_def example_decoded_iou_def inside_target_def
  reshape_rows_def to_x1y1x2y2_def corner_box_def iou_def box_at_def example_utils_def
  rows_of_def reshape_flat_def tmap_def

theorem delta_confidence_loss_witness:
  "\<exists>total_loss conf box ls ins.
     loss example_utils example_hyp_iou example_decoded_iou example_labels Val []
       = Inr ((total_loss, conf, box), ls)
   \<and> inside_target example_utils example_hyp_iou
         (Tensor [2, 1, 4] [11, 22, 2, 4, 30, 40, 6, 8])
         (Tensor [2, 1, 4] [11, 22, 2, 4, 1, 2, 3, 4]) (Tensor [2, 1] [1, 0]) = Inr ins
   \<and> elems ins ! 0 = 1"
proof -
  let ?pb = "Tensor [2, 1, 4] [11, 22, 2, 4, 30, 40, 6, 8] :: real tensor"
  let ?pl = "Tensor [2, 2] [0, 0, 0, 0] :: real tensor"
  let ?pc = "Tensor [2, 1, 2] [1/2, 1/2, 1/2, 1/2] :: real tensor"
  let ?f = "Tensor [1, 2, 1] [1, 0] :: int tensor"
  let ?c = "Tensor [1, 2, 1, 2] [0, 1, 1, 0] :: real tensor"
  let ?b = "Tensor [1, 2, 1, 4] [11, 22, 2, 4, 1, 2, 3, 4] :: real tensor"
  let ?pt = "Tensor [2, 1, 4] [11, 22, 2, 4, 1, 2, 3, 4] :: real tensor"
  let ?pm = "Tensor [2, 1, 1] [1, 0] :: real tensor"
  let ?cl = "Tensor [2, 1] [1, 0] :: int tensor"
  define c where "c = (xent_row [0, 0] 1 + xent_row [0, 0] 0) / 2"
  define t where "t = 5 + (c + (xent_row [0, 0] 1 + xent_row [0, 0] 0) / 20)"
  define b where "b = (5::real)"
  define ls where "ls = [t]"
  have l: "loss example_utils example_hyp_iou (?pb, ?pl, ?pc, Some ?pl, EmptyList)
             (?f, ?c, ?b) Val [] = Inr ((t, c, b), ls)"
    unfolding t_def c_def b_def ls_def
    by (simp add: loss_eval_defs target_eval_defs)
  have m: "loss_matching example_utils example_hyp_iou ?pb ?f ?b = Inr (?cl, ?pt, ?pm)"
    by (simp add: loss_matching_def example_hyp_iou_def example_hyp_def reshape_def
        of_bool_real_def)
  have h: "use_rezoom example_hyp_iou"
    "2 = grid_width example_hyp_iou * grid_height example_hyp_iou * batch_size example_hyp_iou"
    "shape ?pb = [2, 1, 4]" "shape ?pt = [2, 1, 4]" "shape ?pm = [2, 1, 1]" "shape ?cl = [2, 1]"
    "wf ?pb" "wf ?pt" "wf ?cl"
    by (simp_all add: example_hyp_iou_def example_hyp_def wf_def)
  from delta_confidence_loss[OF l m h] obtain ins where
    i: "inside_target example_utils example_hyp_iou ?pb ?pt ?cl = Inr ins"
    and io: "rezoom_change_loss example_hyp_iou = ''iou'' \<longrightarrow>
          (\<forall>q < 2 * 1.
             elems ins ! q
               = (if 0.5 < iou_box example_utils (corner_box example_utils (box_at ?pb q))
                             (corner_box example_utils (box_at ?pt q))
                  then 1 else 0)
           \<and> (box_at ?pb q = box_at ?pt q
                \<and> iou_box example_utils (corner_box example_utils (box_at ?pt q))
                      (corner_box example_utils (box_at ?pt q)) = 1
                \<longrightarrow> elems ins ! q = 1))"
    by blast
  have "box_at ?pb 0 = box_at ?pt 0
        \<and> iou_box example_utils (corner_box example_utils (box_at ?pt 0))
              (corner_box example_utils (box_at ?pt 0)) = 1"
    by (simp add: box_at_def corner_box_def example_utils_def Let_def)
  with io have "elems ins ! 0 = 1"
    by (simp add: example_hyp_iou_def)
  with l i show ?thesis
    unfolding example_decoded_iou_def example_labels_def by blast
qed

end
